theory Spec2Isabelle
  imports Main "HOL-Library.Signed_Division"
begin

section \<open>The operating system as the selectors see it\<close>

text \<open>
  \<^verbatim>\<open>src/crispy/read_selector.h\<close> holds two classes that wait for file descriptors to become
  readable: \<^verbatim>\<open>posix_read_selector\<close> (on \<^verbatim>\<open>select\<close>) and \<^verbatim>\<open>epoll_read_selector\<close> (on
  \<^verbatim>\<open>epoll\<close> and an \<^verbatim>\<open>eventfd\<close>). Both return \<^verbatim>\<open>std::optional<int>\<close> and leave the reason
  for an empty result in \<^verbatim>\<open>errno\<close>. Their behaviour is their conversation with the kernel,
  so the kernel objects they create and the system calls they issue are part of the model.

  The descriptor table holds the objects the selectors themselves create. The source never
  calls \<^verbatim>\<open>pipe\<close>, so there are no pipe objects. The other open descriptors of the process
  are the caller's; the selectors only ever ask the kernel whether such a descriptor is
  readable, and that answer comes from the environment of the call.
\<close>

datatype errno = ENONE | EAGAIN | EINTR | EBADF | EEXIST | ENOENT | EINVAL | ENOMEM | EMFILE

datatype kobj =
    EpollInst "int list"  \<comment> \<open>an epoll instance: its interest list (all entries \<^verbatim>\<open>EPOLLIN\<close>)\<close>
  | EventCounter nat      \<comment> \<open>an eventfd opened with \<^verbatim>\<open>EFD_NONBLOCK\<close>: its counter\<close>

record kernel =
  fdtab :: "int \<Rightarrow> kobj option"
  k_open :: "int set"  \<comment> \<open>the open descriptors of the caller\<close>
  k_errno :: errno

text \<open>
  What happens during one readiness call: the caller-owned descriptors that hold unread
  data, in the order the kernel notices them, and the error that makes the call fail, if
  any (\<^verbatim>\<open>EINTR\<close> for a signal).
\<close>

record env =
  env_ready :: "int list"
  env_fail :: "errno option"

text \<open>
  A call either returns, or aborts the process (a failed \<^verbatim>\<open>assert\<close> or \<^verbatim>\<open>Require\<close>, a
  check of the C library), or never returns (the kernel blocks for ever, or the scripted
  environment ends while the call is still retrying), or does something that C++ leaves
  undefined and that the model does not follow: a write outside an \<^verbatim>\<open>fd_set\<close>.
\<close>

datatype 'a outcome = Returned 'a | Aborted | Blocked | Undefined

definition set_errno :: "kernel \<Rightarrow> errno \<Rightarrow> kernel" where
  "set_errno k e = k\<lparr>k_errno := e\<rparr>"

definition put_obj :: "kernel \<Rightarrow> int \<Rightarrow> kobj \<Rightarrow> kernel" where
  "put_obj k fd ob = k\<lparr>fdtab := (fdtab k)(fd \<mapsto> ob)\<rparr>"

definition is_open :: "kernel \<Rightarrow> int \<Rightarrow> bool" where
  "is_open k fd \<longleftrightarrow> fd \<in> dom (fdtab k) \<or> fd \<in> k_open k"

text \<open>
  The error of a call on a descriptor that the table does not hold: \<^verbatim>\<open>EBADF\<close> when it is
  closed, \<^verbatim>\<open>EINVAL\<close> when it is a descriptor of the caller, which is not the kind of object
  the call wants.
\<close>

definition foreign :: "kernel \<Rightarrow> int \<Rightarrow> errno" where
  "foreign k fd = (if fd \<in> k_open k then EINVAL else EBADF)"

text \<open>
  \<^verbatim>\<open>epoll_create1\<close> and \<^verbatim>\<open>eventfd\<close>: the descriptor number the kernel picks is the
  argument \<open>new\<close>; the call fails when that number is not a free descriptor.
\<close>

definition epoll_create1 :: "kernel \<Rightarrow> int \<Rightarrow> kernel \<times> int" where
  "epoll_create1 k new =
     (if 0 \<le> new \<and> \<not> is_open k new then (put_obj k new (EpollInst []), new)
      else (set_errno k EMFILE, -1))"

definition eventfd :: "kernel \<Rightarrow> nat \<Rightarrow> int \<Rightarrow> kernel \<times> int" where
  "eventfd k initval new =
     (if 0 \<le> new \<and> \<not> is_open k new then (put_obj k new (EventCounter initval), new)
      else (set_errno k EMFILE, -1))"

datatype epoll_op = EPOLL_CTL_ADD | EPOLL_CTL_DEL

text \<open>
  \<^verbatim>\<open>epoll_ctl(epfd, op, fd, &event)\<close> with \<^verbatim>\<open>event.events = EPOLLIN\<close>. A descriptor that
  is not open is refused with \<^verbatim>\<open>EBADF\<close>, a second \<^verbatim>\<open>EPOLL_CTL_ADD\<close> of a descriptor with
  \<^verbatim>\<open>EEXIST\<close>.
\<close>

definition epoll_ctl :: "kernel \<Rightarrow> int \<Rightarrow> epoll_op \<Rightarrow> int \<Rightarrow> kernel \<times> int" where
  "epoll_ctl k epfd ctl fd =
     (case fdtab k epfd of
        None \<Rightarrow> (set_errno k (foreign k epfd), -1)
      | Some (EventCounter c) \<Rightarrow> (set_errno k EINVAL, -1)
      | Some (EpollInst interest) \<Rightarrow>
          if 0 \<le> fd \<and> is_open k fd then
            if fd = epfd then (set_errno k EINVAL, -1)
            else (case ctl of
                    EPOLL_CTL_ADD \<Rightarrow>
                      if fd \<in> set interest then (set_errno k EEXIST, -1)
                      else (put_obj k epfd (EpollInst (interest @ [fd])), 0)
                  | EPOLL_CTL_DEL \<Rightarrow>
                      if fd \<in> set interest then (put_obj k epfd (EpollInst (removeAll fd interest)), 0)
                      else (set_errno k ENOENT, -1))
          else (set_errno k EBADF, -1))"

text \<open>
  \<^verbatim>\<open>close\<close> frees the descriptor; a closed descriptor also leaves every interest list.
\<close>

definition forget :: "int \<Rightarrow> kobj \<Rightarrow> kobj" where
  "forget fd ob = (case ob of EpollInst l \<Rightarrow> EpollInst (removeAll fd l) | EventCounter c \<Rightarrow> EventCounter c)"

definition sys_close :: "kernel \<Rightarrow> int \<Rightarrow> kernel \<times> int" where
  "sys_close k fd =
     (if is_open k fd
      then (k\<lparr>fdtab := (\<lambda>x. if x = fd then None else map_option (forget fd) (fdtab k x)),
              k_open := k_open k - {fd}\<rparr>, 0)
      else (set_errno k EBADF, -1))"

text \<open>
  \<^verbatim>\<open>write(fd, buf, count)\<close>, where \<open>val\<close> is the number the buffer holds. An eventfd takes
  eight bytes and adds the number to its counter; the counter never exceeds
  \<open>2^64 - 2\<close>, and a non-blocking eventfd refuses the write that would. The selectors
  write and read their wake descriptor only; what a write or read does to a descriptor of
  the caller is not modelled, the call fails.
\<close>

definition sys_write :: "kernel \<Rightarrow> int \<Rightarrow> nat \<Rightarrow> nat \<Rightarrow> kernel \<times> int" where
  "sys_write k fd count val =
     (case fdtab k fd of
        None \<Rightarrow> (set_errno k (foreign k fd), -1)
      | Some (EpollInst l) \<Rightarrow> (set_errno k EINVAL, -1)
      | Some (EventCounter c) \<Rightarrow>
          if count < 8 \<or> 2 ^ 64 - 1 \<le> int val then (set_errno k EINVAL, -1)
          else if 2 ^ 64 - 2 < int c + int val then (set_errno k EAGAIN, -1)
          else (put_obj k fd (EventCounter (c + val)), 8))"

text \<open>
  \<^verbatim>\<open>read(fd, buf, count)\<close>: an eventfd with a non-zero counter hands out eight bytes and
  resets the counter; with a zero counter the non-blocking read fails with \<^verbatim>\<open>EAGAIN\<close>.
\<close>

definition sys_read :: "kernel \<Rightarrow> int \<Rightarrow> nat \<Rightarrow> kernel \<times> int" where
  "sys_read k fd count =
     (case fdtab k fd of
        None \<Rightarrow> (set_errno k (foreign k fd), -1)
      | Some (EpollInst l) \<Rightarrow> (set_errno k EINVAL, -1)
      | Some (EventCounter c) \<Rightarrow>
          if count < 8 then (set_errno k EINVAL, -1)
          else if c = 0 then (set_errno k EAGAIN, -1)
          else (put_obj k fd (EventCounter 0), 8))"

text \<open>
  Readability of a descriptor during a call: an eventfd is readable while its counter is
  not zero; a descriptor of the caller is readable when the environment lists it.
\<close>

definition readable :: "kernel \<Rightarrow> env \<Rightarrow> int \<Rightarrow> bool" where
  "readable k e fd =
     (case fdtab k fd of
        None \<Rightarrow> fd \<in> k_open k \<and> fd \<in> set (env_ready e)
      | Some (EpollInst l) \<Rightarrow> False
      | Some (EventCounter c) \<Rightarrow> 0 < c)"

text \<open>
  \<^verbatim>\<open>epoll_wait(epfd, events, maxevents, timeout)\<close>. The report lists the readable members of
  the interest list, each once: first those the environment names, in its order, then the
  others in registration order; the environment may name the eventfd to place it anywhere.
  At most \<open>maxevents\<close> entries are reported. With nothing to report the call returns 0
  when the timeout is not negative and blocks for ever when it is.
\<close>

definition epoll_report :: "kernel \<Rightarrow> env \<Rightarrow> int list \<Rightarrow> nat \<Rightarrow> int list" where
  "epoll_report k e interest maxevents =
     take maxevents
       (filter (\<lambda>fd. fd \<in> set interest \<and> readable k e fd)
          (remdups (env_ready e) @ filter (\<lambda>fd. fd \<notin> set (env_ready e)) (remdups interest)))"

definition epoll_wait :: "kernel \<Rightarrow> int \<Rightarrow> nat \<Rightarrow> int \<Rightarrow> env \<Rightarrow> (kernel \<times> int \<times> int list) outcome" where
  "epoll_wait k epfd maxevents timeout e =
     (case fdtab k epfd of
        None \<Rightarrow> Returned (set_errno k (foreign k epfd), -1, [])
      | Some (EventCounter c) \<Rightarrow> Returned (set_errno k EINVAL, -1, [])
      | Some (EpollInst interest) \<Rightarrow>
          if maxevents = 0 then Returned (set_errno k EINVAL, -1, [])
          else (case env_fail e of
                  Some err \<Rightarrow> Returned (set_errno k err, -1, [])
                | None \<Rightarrow>
                    let evs = epoll_report k e interest maxevents in
                    if evs \<noteq> [] then Returned (k, int (length evs), evs)
                    else if timeout < 0 then Blocked
                    else Returned (k, 0, [])))"

text \<open>
  An \<^verbatim>\<open>fd_set\<close> is a bitmap of \<^verbatim>\<open>FD_SETSIZE\<close> bits, one per descriptor. It is modelled as
  the set of its members; only the bits of the descriptors \<open>0 ..< FD_SETSIZE\<close> exist, and
  no operation below reads or writes another one.
\<close>

type_synonym fd_set = "int \<Rightarrow> bool"

definition FD_SETSIZE :: int where
  "FD_SETSIZE = 1024"

definition fd_in_range :: "int \<Rightarrow> bool" where
  "fd_in_range fd \<longleftrightarrow> 0 \<le> fd \<and> fd < FD_SETSIZE"

text \<open>
  \<^verbatim>\<open>FD_ISSET(fd, &set)\<close> is a macro of the C library. For a descriptor outside
  \<open>0 ..< FD_SETSIZE\<close> it reads outside the bitmap, and what comes of that depends on the
  library and the machine, so it is a parameter of the model. Two instances: glibc on
  x86-64 computes the word \<open>fd / 64\<close> and the mask \<open>1 << (fd % 64)\<close>; for \<open>-64 < fd < 0\<close> the
  division truncates to word 0 and the shift count is taken modulo 64, so the bit read is
  the one of descriptor \<open>fd mod 64\<close> (bit 63 for \<open>fd = -1\<close>); reads of other words are not
  followed. glibc built with \<^verbatim>\<open>_FORTIFY_SOURCE\<close> checks the descriptor and aborts.
\<close>

type_synonym libc = "int \<Rightarrow> fd_set \<Rightarrow> bool outcome"

definition FD_ISSET :: "libc \<Rightarrow> int \<Rightarrow> fd_set \<Rightarrow> bool outcome" where
  "FD_ISSET libc fd rd = (if fd_in_range fd then Returned (rd fd) else libc fd rd)"

definition glibc_x86_64 :: libc where
  "glibc_x86_64 fd rd = (if -64 < fd \<and> fd < 0 then Returned (rd (fd mod 64)) else Undefined)"

definition glibc_fortified :: libc where
  "glibc_fortified fd rd = Aborted"

text \<open>
  \<^verbatim>\<open>select(nfds, &readfds, &writefds, &exceptfds, tv)\<close>. The call looks at the descriptors
  below \<open>nfds\<close> and overwrites the bitmap in place: on return a bit below \<open>nfds\<close> is set only
  if it was set and the descriptor is readable. A failing call leaves the bitmap alone; the
  call fails with \<^verbatim>\<open>EBADF\<close> when a descriptor of the set is not open. The selector's
  \<^verbatim>\<open>_writer\<close> and \<^verbatim>\<open>_except\<close> bitmaps are empty from construction on and no member function
  sets a bit in them, so they are left out.
\<close>

definition select_hits :: "kernel \<Rightarrow> env \<Rightarrow> int \<Rightarrow> fd_set \<Rightarrow> int list" where
  "select_hits k e nfds rd = filter (\<lambda>fd. rd fd \<and> readable k e fd) [0 .. nfds - 1]"

definition select_out :: "kernel \<Rightarrow> env \<Rightarrow> int \<Rightarrow> fd_set \<Rightarrow> fd_set" where
  "select_out k e nfds rd = (\<lambda>fd. if 0 \<le> fd \<and> fd < nfds then rd fd \<and> readable k e fd else rd fd)"

definition select_closed :: "kernel \<Rightarrow> int \<Rightarrow> fd_set \<Rightarrow> int list" where
  "select_closed k nfds rd = filter (\<lambda>fd. rd fd \<and> \<not> is_open k fd) [0 .. nfds - 1]"

definition sys_select ::
  "kernel \<Rightarrow> int \<Rightarrow> fd_set \<Rightarrow> (int \<times> int) option \<Rightarrow> env \<Rightarrow> (kernel \<times> int \<times> fd_set) outcome" where
  "sys_select k nfds rd tv e =
     (if nfds < 0 then Returned (set_errno k EINVAL, -1, rd)
      else if (case tv of None \<Rightarrow> False | Some (sec, usec) \<Rightarrow> sec < 0 \<or> usec < 0)
        then Returned (set_errno k EINVAL, -1, rd)
      else if select_closed k nfds rd \<noteq> [] then Returned (set_errno k EBADF, -1, rd)
      else (case env_fail e of
              Some err \<Rightarrow> Returned (set_errno k err, -1, rd)
            | None \<Rightarrow>
                let hits = select_hits k e nfds rd in
                if hits \<noteq> [] then Returned (k, int (length hits), select_out k e nfds rd)
                else if tv = None then Blocked
                else Returned (k, 0, select_out k e nfds rd)))"

section \<open>The select backend: \<^verbatim>\<open>posix_read_selector\<close>\<close>

text \<open>
  The members \<^verbatim>\<open>_reader\<close>, \<^verbatim>\<open>_fds\<close>, \<^verbatim>\<open>_pending\<close> and \<^verbatim>\<open>_breakPipe\<close>. Descriptors are C
  \<^verbatim>\<open>int\<close>s; the only arithmetic on them is \<^verbatim>\<open>_fds.back() + 1\<close>, which cannot overflow for
  a descriptor that fits an \<^verbatim>\<open>fd_set\<close>.
\<close>

record posix_read_selector =
  p_reader :: fd_set
  p_fds :: "int list"
  p_pending :: "int list"
  p_breakPipe :: "int \<times> int"

text \<open>The default member initialisers: empty bitmap, no descriptors, \<^verbatim>\<open>_breakPipe { -1, -1 }\<close>.\<close>

definition posix_init :: posix_read_selector where
  "posix_init = \<lparr>p_reader = (\<lambda>fd. False), p_fds = [], p_pending = [], p_breakPipe = (-1, -1)\<rparr>"

text \<open>
  \<^verbatim>\<open>want_read\<close> and \<^verbatim>\<open>cancel_read\<close>. \<^verbatim>\<open>FD_SET\<close> and \<^verbatim>\<open>FD_CLR\<close> on a descriptor outside
  \<open>0 ..< FD_SETSIZE\<close> write outside \<^verbatim>\<open>_reader\<close> (into the members next to it, or the C
  library aborts); the model stops there.
\<close>

definition posix_want_read :: "posix_read_selector \<Rightarrow> int \<Rightarrow> posix_read_selector outcome" where
  "posix_want_read s fd =
     (if fd_in_range fd
      then Returned (s\<lparr>p_reader := (p_reader s)(fd := True), p_fds := sort (p_fds s @ [fd])\<rparr>)
      else Undefined)"

definition posix_cancel_read :: "posix_read_selector \<Rightarrow> int \<Rightarrow> posix_read_selector outcome" where
  "posix_cancel_read s fd =
     (if fd_in_range fd
      then Returned (s\<lparr>p_reader := (p_reader s)(fd := False), p_fds := removeAll fd (p_fds s)\<rparr>)
      else Undefined)"

text \<open>\<^verbatim>\<open>create\<close>: a default-constructed selector, then \<^verbatim>\<open>want_read\<close> for each descriptor.\<close>

fun posix_want_all :: "posix_read_selector \<Rightarrow> int list \<Rightarrow> posix_read_selector outcome" where
  "posix_want_all s [] = Returned s"
| "posix_want_all s (fd # fds) =
     (case posix_want_read s fd of
        Returned s1 \<Rightarrow> posix_want_all s1 fds
      | Aborted \<Rightarrow> Aborted
      | Blocked \<Rightarrow> Blocked
      | Undefined \<Rightarrow> Undefined)"

definition posix_create :: "int list \<Rightarrow> posix_read_selector outcome" where
  "posix_create xs = posix_want_all posix_init xs"

text \<open>\<^verbatim>\<open>wakeup\<close> writes the byte \<^verbatim>\<open>'x'\<close> unless the write end is \<open>-1\<close>.\<close>

definition posix_wakeup :: "kernel \<Rightarrow> posix_read_selector \<Rightarrow> kernel" where
  "posix_wakeup k s =
     (if snd (p_breakPipe s) \<noteq> -1 then fst (sys_write k (snd (p_breakPipe s)) 1 120) else k)"

text \<open>\<^verbatim>\<open>try_pop_pending\<close> of the select backend sets \<^verbatim>\<open>errno = EAGAIN\<close> on an empty queue.\<close>

definition posix_try_pop_pending ::
  "kernel \<Rightarrow> posix_read_selector \<Rightarrow> kernel \<times> posix_read_selector \<times> int option" where
  "posix_try_pop_pending k s =
     (case p_pending s of
        [] \<Rightarrow> (set_errno k EAGAIN, s, None)
      | fd # rest \<Rightarrow> (k, s\<lparr>p_pending := rest\<rparr>, Some fd))"

text \<open>
  The \<^verbatim>\<open>timeval\<close> built from the timeout; C++ division and remainder truncate towards zero.
\<close>

definition posix_timeval :: "int option \<Rightarrow> (int \<times> int) option" where
  "posix_timeval timeout = map_option (\<lambda>ms. (ms sdiv 1000, (ms smod 1000) * 1000)) timeout"

text \<open>
  The loop \<^verbatim>\<open>while (read(_breakPipe[0], buf, sizeof(buf)) > 0);\<close>. It ends with the first
  read that returns nothing; a read that returns data leaves less behind.
\<close>

definition unread :: "kernel \<Rightarrow> int \<Rightarrow> nat" where
  "unread k fd = (case fdtab k fd of Some (EventCounter c) \<Rightarrow> c | _ \<Rightarrow> 0)"

function posix_drain :: "kernel \<Rightarrow> int \<Rightarrow> kernel" where
  "posix_drain k fd = (if 0 < snd (sys_read k fd 256) then posix_drain (fst (sys_read k fd 256)) fd
                       else fst (sys_read k fd 256))"
  by pat_completeness auto
termination
  by (relation "measure (\<lambda>(k, fd). unread k fd)")
     (auto simp: unread_def sys_read_def put_obj_def set_errno_def split: option.splits kobj.splits if_splits)

declare posix_drain.simps [simp del]

text \<open>
  The loop \<^verbatim>\<open>for (int fd: _fds) if (FD_ISSET(fd, &_reader)) _pending.push_back(fd);\<close>, with
  the queue as it grows.
\<close>

fun posix_scan :: "libc \<Rightarrow> fd_set \<Rightarrow> int list \<Rightarrow> int list \<Rightarrow> int list outcome" where
  "posix_scan libc rd pending [] = Returned pending"
| "posix_scan libc rd pending (fd # fds) =
     (case FD_ISSET libc fd rd of
        Returned b \<Rightarrow> posix_scan libc rd (if b then pending @ [fd] else pending) fds
      | Aborted \<Rightarrow> Aborted
      | Blocked \<Rightarrow> Blocked
      | Undefined \<Rightarrow> Undefined)"

text \<open>
  \<^verbatim>\<open>wait_one\<close>. The \<^verbatim>\<open>assert\<close> on \<^verbatim>\<open>_fds\<close> aborts the call; the bitmap that \<^verbatim>\<open>select\<close> has
  written replaces \<^verbatim>\<open>_reader\<close>, since the member itself is passed to the call. The test
  \<^verbatim>\<open>FD_ISSET(_breakPipe[0], &_reader)\<close> is evaluated on whatever \<^verbatim>\<open>_breakPipe[0]\<close> holds.
\<close>

definition posix_wait_one ::
  "libc \<Rightarrow> kernel \<Rightarrow> posix_read_selector \<Rightarrow> int option \<Rightarrow> env \<Rightarrow>
     (kernel \<times> posix_read_selector \<times> int option) outcome" where
  "posix_wait_one libc k s timeout e =
     (if p_fds s = [] then Aborted
      else (case posix_try_pop_pending k s of
              (k1, s1, Some fd) \<Rightarrow> Returned (k1, s1, Some fd)
            | (k1, s1, None) \<Rightarrow>
                (case sys_select k1 (last (p_fds s1) + 1) (p_reader s1) (posix_timeval timeout) e of
                   Aborted \<Rightarrow> Aborted
                 | Blocked \<Rightarrow> Blocked
                 | Undefined \<Rightarrow> Undefined
                 | Returned (k2, result, rd) \<Rightarrow>
                     let s2 = s1\<lparr>p_reader := rd\<rparr> in
                     if result \<le> 0 then Returned (k2, s2, None)
                     else (case FD_ISSET libc (fst (p_breakPipe s2)) (p_reader s2) of
                             Aborted \<Rightarrow> Aborted
                           | Blocked \<Rightarrow> Blocked
                           | Undefined \<Rightarrow> Undefined
                           | Returned piped \<Rightarrow>
                               if piped then Returned (posix_drain k2 (fst (p_breakPipe s2)), s2, None)
                               else (case posix_scan libc (p_reader s2) (p_pending s2) (p_fds s2) of
                                       Aborted \<Rightarrow> Aborted
                                     | Blocked \<Rightarrow> Blocked
                                     | Undefined \<Rightarrow> Undefined
                                     | Returned queue \<Rightarrow>
                                         Returned (posix_try_pop_pending k2 (s2\<lparr>p_pending := queue\<rparr>)))))))"

section \<open>The epoll backend: \<^verbatim>\<open>epoll_read_selector\<close>\<close>

record epoll_read_selector =
  e_epollFd :: int
  e_eventFd :: int
  e_pending :: "int list"

text \<open>
  The constructor. \<^verbatim>\<open>Require\<close> (from \<^verbatim>\<open>crispy/assert.h\<close>) ends the process when its
  condition is false. \<open>new1\<close> and \<open>new2\<close> are the descriptor numbers the kernel picks.
\<close>

definition epoll_new :: "kernel \<Rightarrow> int \<Rightarrow> int \<Rightarrow> (kernel \<times> epoll_read_selector) outcome" where
  "epoll_new k new1 new2 =
     (let (k1, epfd) = epoll_create1 k new1 in
      if epfd = -1 then Aborted
      else let (k2, evfd) = eventfd k1 0 new2 in
        if evfd = -1 then Aborted
        else Returned (fst (epoll_ctl k2 epfd EPOLL_CTL_ADD evfd),
                       \<lparr>e_epollFd = epfd, e_eventFd = evfd, e_pending = []\<rparr>))"

text \<open>The destructor: \<^verbatim>\<open>close(_epollFd); close(_eventFd);\<close>, with the two return values.\<close>

definition epoll_delete :: "kernel \<Rightarrow> epoll_read_selector \<Rightarrow> kernel \<times> int \<times> int" where
  "epoll_delete k s =
     (let (k1, r1) = sys_close k (e_epollFd s); (k2, r2) = sys_close k1 (e_eventFd s)
      in (k2, r1, r2))"

definition epoll_want_read :: "kernel \<Rightarrow> epoll_read_selector \<Rightarrow> int \<Rightarrow> kernel" where
  "epoll_want_read k s fd = fst (epoll_ctl k (e_epollFd s) EPOLL_CTL_ADD fd)"

definition epoll_cancel_read :: "kernel \<Rightarrow> epoll_read_selector \<Rightarrow> int \<Rightarrow> kernel" where
  "epoll_cancel_read k s fd = fst (epoll_ctl k (e_epollFd s) EPOLL_CTL_DEL fd)"

definition epoll_wakeup :: "kernel \<Rightarrow> epoll_read_selector \<Rightarrow> kernel" where
  "epoll_wakeup k s = fst (sys_write k (e_eventFd s) 8 1)"

definition epoll_try_pop_pending :: "epoll_read_selector \<Rightarrow> epoll_read_selector \<times> int option" where
  "epoll_try_pop_pending s =
     (case e_pending s of
        [] \<Rightarrow> (s, None)
      | fd # rest \<Rightarrow> (s\<lparr>e_pending := rest\<rparr>, Some fd))"

text \<open>
  The \<^verbatim>\<open>for\<close> loop over the reported events: the eventfd is read and \<^verbatim>\<open>piped\<close> records
  whether that read returned data; every other descriptor is pushed on \<^verbatim>\<open>_pending\<close>.
\<close>

fun epoll_triage ::
  "kernel \<Rightarrow> epoll_read_selector \<Rightarrow> bool \<Rightarrow> int list \<Rightarrow> kernel \<times> epoll_read_selector \<times> bool" where
  "epoll_triage k s piped [] = (k, s, piped)"
| "epoll_triage k s piped (fd # evs) =
     (if fd = e_eventFd s
      then epoll_triage (fst (sys_read k (e_eventFd s) 8)) s (0 < snd (sys_read k (e_eventFd s) 8)) evs
      else epoll_triage k (s\<lparr>e_pending := e_pending s @ [fd]\<rparr>) piped evs)"

text \<open>
  The timeout argument of \<^verbatim>\<open>epoll_wait\<close>: \<^verbatim>\<open>static_cast<int>\<close> of the 64-bit millisecond
  count, or \<open>-1\<close> without a timeout.
\<close>

definition to_int32 :: "int \<Rightarrow> int" where
  "to_int32 x = (x + 2 ^ 31) mod 2 ^ 32 - 2 ^ 31"

definition epoll_timeout :: "int option \<Rightarrow> int" where
  "epoll_timeout timeout = (case timeout of None \<Rightarrow> -1 | Some ms \<Rightarrow> to_int32 ms)"

text \<open>
  The \<^verbatim>\<open>for (;;)\<close> loop of \<^verbatim>\<open>wait_one\<close>. Each turn issues one \<^verbatim>\<open>epoll_wait\<close>, answered by the
  next environment of the list; \<^verbatim>\<open>EINTR\<close> starts the next turn.
\<close>

fun epoll_wait_loop ::
  "kernel \<Rightarrow> epoll_read_selector \<Rightarrow> int option \<Rightarrow> env list \<Rightarrow>
     (kernel \<times> epoll_read_selector \<times> int option) outcome" where
  "epoll_wait_loop k s timeout [] = Blocked"
| "epoll_wait_loop k s timeout (e # es) =
     (case epoll_wait k (e_epollFd s) 64 (epoll_timeout timeout) e of
        Aborted \<Rightarrow> Aborted
      | Blocked \<Rightarrow> Blocked
      | Undefined \<Rightarrow> Undefined
      | Returned (k1, result, events) \<Rightarrow>
          if result = 0 then Returned (set_errno k1 EAGAIN, s, None)
          else if result < 0 then
            (if k_errno k1 = EINTR then epoll_wait_loop k1 s timeout es
             else Returned (k1, s, None))
          else (case epoll_triage k1 s False (take (nat result) events) of
                  (k2, s2, piped) \<Rightarrow>
                    (case epoll_try_pop_pending s2 of
                       (s3, Some fd) \<Rightarrow> Returned (k2, s3, Some fd)
                     | (s3, None) \<Rightarrow>
                         Returned (set_errno k2 (if piped then EINTR else EAGAIN), s3, None))))"

definition epoll_wait_one ::
  "kernel \<Rightarrow> epoll_read_selector \<Rightarrow> int option \<Rightarrow> env list \<Rightarrow>
     (kernel \<times> epoll_read_selector \<times> int option) outcome" where
  "epoll_wait_one k s timeout es =
     (case epoll_try_pop_pending s of
        (s1, Some fd) \<Rightarrow> Returned (k, s1, Some fd)
      | (s1, None) \<Rightarrow> epoll_wait_loop k s1 timeout es)"

section \<open>Callers\<close>

text \<open>
  A caller is a sequence of member-function calls on one selector. Successive \<^verbatim>\<open>wait_one\<close>
  calls are collected with their results.
\<close>

datatype posix_call = PWantRead int | PCancelRead int | PWakeup | PWaitOne "int option" env

fun posix_do ::
  "libc \<Rightarrow> kernel \<times> posix_read_selector \<Rightarrow> posix_call \<Rightarrow> (kernel \<times> posix_read_selector) outcome" where
  "posix_do libc (k, s) (PWantRead fd) =
     (case posix_want_read s fd of
        Returned s1 \<Rightarrow> Returned (k, s1)
      | Aborted \<Rightarrow> Aborted
      | Blocked \<Rightarrow> Blocked
      | Undefined \<Rightarrow> Undefined)"
| "posix_do libc (k, s) (PCancelRead fd) =
     (case posix_cancel_read s fd of
        Returned s1 \<Rightarrow> Returned (k, s1)
      | Aborted \<Rightarrow> Aborted
      | Blocked \<Rightarrow> Blocked
      | Undefined \<Rightarrow> Undefined)"
| "posix_do libc (k, s) PWakeup = Returned (posix_wakeup k s, s)"
| "posix_do libc (k, s) (PWaitOne timeout e) =
     (case posix_wait_one libc k s timeout e of
        Returned (k1, s1, r) \<Rightarrow> Returned (k1, s1)
      | Aborted \<Rightarrow> Aborted
      | Blocked \<Rightarrow> Blocked
      | Undefined \<Rightarrow> Undefined)"

fun posix_calls ::
  "libc \<Rightarrow> kernel \<times> posix_read_selector \<Rightarrow> posix_call list \<Rightarrow> (kernel \<times> posix_read_selector) outcome" where
  "posix_calls libc st [] = Returned st"
| "posix_calls libc st (c # cs) =
     (case posix_do libc st c of
        Returned st1 \<Rightarrow> posix_calls libc st1 cs
      | Aborted \<Rightarrow> Aborted
      | Blocked \<Rightarrow> Blocked
      | Undefined \<Rightarrow> Undefined)"

fun posix_wait_many ::
  "libc \<Rightarrow> kernel \<Rightarrow> posix_read_selector \<Rightarrow> (int option \<times> env) list \<Rightarrow>
     (kernel \<times> posix_read_selector \<times> int option list) outcome" where
  "posix_wait_many libc k s [] = Returned (k, s, [])"
| "posix_wait_many libc k s ((timeout, e) # calls) =
     (case posix_wait_one libc k s timeout e of
        Returned (k1, s1, r) \<Rightarrow>
          (case posix_wait_many libc k1 s1 calls of
             Returned (k2, s2, rs) \<Rightarrow> Returned (k2, s2, r # rs)
           | Aborted \<Rightarrow> Aborted
           | Blocked \<Rightarrow> Blocked
           | Undefined \<Rightarrow> Undefined)
      | Aborted \<Rightarrow> Aborted
      | Blocked \<Rightarrow> Blocked
      | Undefined \<Rightarrow> Undefined)"

datatype epoll_call = EWantRead int | ECancelRead int | EWakeup | EWaitOne "int option" "env list"

fun epoll_do :: "kernel \<times> epoll_read_selector \<Rightarrow> epoll_call \<Rightarrow> (kernel \<times> epoll_read_selector) outcome" where
  "epoll_do (k, s) (EWantRead fd) = Returned (epoll_want_read k s fd, s)"
| "epoll_do (k, s) (ECancelRead fd) = Returned (epoll_cancel_read k s fd, s)"
| "epoll_do (k, s) EWakeup = Returned (epoll_wakeup k s, s)"
| "epoll_do (k, s) (EWaitOne timeout es) =
     (case epoll_wait_one k s timeout es of
        Returned (k1, s1, r) \<Rightarrow> Returned (k1, s1)
      | Aborted \<Rightarrow> Aborted
      | Blocked \<Rightarrow> Blocked
      | Undefined \<Rightarrow> Undefined)"

fun epoll_calls :: "kernel \<times> epoll_read_selector \<Rightarrow> epoll_call list \<Rightarrow> (kernel \<times> epoll_read_selector) outcome" where
  "epoll_calls st [] = Returned st"
| "epoll_calls st (c # cs) =
     (case epoll_do st c of
        Returned st1 \<Rightarrow> epoll_calls st1 cs
      | Aborted \<Rightarrow> Aborted
      | Blocked \<Rightarrow> Blocked
      | Undefined \<Rightarrow> Undefined)"

fun epoll_wait_many ::
  "kernel \<Rightarrow> epoll_read_selector \<Rightarrow> (int option \<times> env list) list \<Rightarrow>
     (kernel \<times> epoll_read_selector \<times> int option list) outcome" where
  "epoll_wait_many k s [] = Returned (k, s, [])"
| "epoll_wait_many k s ((timeout, es) # calls) =
     (case epoll_wait_one k s timeout es of
        Returned (k1, s1, r) \<Rightarrow>
          (case epoll_wait_many k1 s1 calls of
             Returned (k2, s2, rs) \<Rightarrow> Returned (k2, s2, r # rs)
           | Aborted \<Rightarrow> Aborted
           | Blocked \<Rightarrow> Blocked
           | Undefined \<Rightarrow> Undefined)
      | Aborted \<Rightarrow> Aborted
      | Blocked \<Rightarrow> Blocked
      | Undefined \<Rightarrow> Undefined)"

text \<open>
  Concrete kernels, environments and selectors for the examples. The caller's open
  descriptors are 5, 9 and 63.
\<close>

definition kernel0 :: kernel where
  "kernel0 = \<lparr>fdtab = (\<lambda>fd. None), k_open = {5, 9, 63}, k_errno = ENONE\<rparr>"

definition ready_env :: "int list \<Rightarrow> env" where
  "ready_env xs = \<lparr>env_ready = xs, env_fail = None\<rparr>"

definition failing_env :: "errno \<Rightarrow> env" where
  "failing_env err = \<lparr>env_ready = [], env_fail = Some err\<rparr>"

text \<open>
  The select selector that \<^verbatim>\<open>create\<close> gives for a list of descriptors that fit an
  \<^verbatim>\<open>fd_set\<close>.
\<close>

definition watching :: "int list \<Rightarrow> posix_read_selector" where
  "watching xs = \<lparr>p_reader = (\<lambda>fd. fd \<in> set xs), p_fds = sort xs, p_pending = [], p_breakPipe = (-1, -1)\<rparr>"

text \<open>
  An epoll selector constructed on descriptors 3 and 4, with the caller's descriptor 5
  registered.
\<close>

definition kernel345 :: kernel where
  "kernel345 = \<lparr>fdtab = (\<lambda>fd. None)(4 \<mapsto> EventCounter 0, 3 \<mapsto> EpollInst [4, 5]),
                 k_open = {5, 9, 63}, k_errno = ENONE\<rparr>"

definition selector34 :: epoll_read_selector where
  "selector34 = \<lparr>e_epollFd = 3, e_eventFd = 4, e_pending = []\<rparr>"

text \<open>Whether a descriptor denotes an eventfd.\<close>

definition is_eventfd :: "kernel \<Rightarrow> int \<Rightarrow> bool" where
  "is_eventfd k fd = (case fdtab k fd of Some (EventCounter c) \<Rightarrow> True | _ \<Rightarrow> False)"

text \<open>
  Whether the selector's eventfd is open and in the interest list of its epoll instance.
\<close>

definition epoll_watching :: "kernel \<Rightarrow> epoll_read_selector \<Rightarrow> bool" where
  "epoll_watching k s =
     (case fdtab k (e_epollFd s) of
        Some (EpollInst interest) \<Rightarrow> e_eventFd s \<in> set interest \<and> is_eventfd k (e_eventFd s)
      | _ \<Rightarrow> False)"

text \<open>
  What the member functions of the select backend keep true of the selector: \<^verbatim>\<open>_fds\<close> is
  sorted, its descriptors fit an \<^verbatim>\<open>fd_set\<close>, and every bit of \<^verbatim>\<open>_reader\<close> belongs to a
  descriptor of \<^verbatim>\<open>_fds\<close>.
\<close>

definition posix_inv :: "posix_read_selector \<Rightarrow> bool" where
  "posix_inv s \<longleftrightarrow> sorted (p_fds s) \<and> (\<forall>fd\<in>set (p_fds s). fd_in_range fd) \<and>
     (\<forall>fd. p_reader s fd \<longrightarrow> fd \<in> set (p_fds s))"

lemmas kernel_defs = set_errno_def put_obj_def is_open_def foreign_def epoll_create1_def eventfd_def
  epoll_ctl_def sys_close_def forget_def sys_write_def sys_read_def readable_def epoll_report_def
  epoll_wait_def select_hits_def select_out_def select_closed_def sys_select_def FD_SETSIZE_def fd_in_range_def
  FD_ISSET_def glibc_x86_64_def glibc_fortified_def

lemmas posix_defs = posix_init_def posix_want_read_def posix_cancel_read_def posix_create_def
  posix_wakeup_def posix_try_pop_pending_def posix_timeval_def posix_wait_one_def

lemmas epoll_defs = epoll_new_def epoll_delete_def epoll_want_read_def epoll_cancel_read_def
  epoll_wakeup_def epoll_try_pop_pending_def epoll_timeout_def to_int32_def epoll_wait_one_def

lemmas example_defs = kernel0_def ready_env_def failing_env_def watching_def kernel345_def
  selector34_def

section \<open>Facts about the kernel model\<close>

lemma filter_single:
  assumes "distinct xs" and "x \<in> set xs" and "P x" and "\<forall>y\<in>set xs. P y \<longrightarrow> y = x"
  shows "filter P xs = [x]"
  using assms
proof (induction xs)
  case Nil
  then show ?case by simp
next
  case (Cons a xs)
  show ?case
  proof (cases "a = x")
    case True
    from Cons.prems(1) True have "x \<notin> set xs" by simp
    with Cons.prems(4) have "\<forall>y\<in>set xs. \<not> P y" by fastforce
    then have "filter P xs = []" by (simp add: filter_empty_conv)
    with True Cons.prems(3) show ?thesis by simp
  next
    case False
    from Cons.prems(4) False have "\<not> P a" by fastforce
    moreover have "filter P xs = [x]"
    proof (rule Cons.IH)
      show "distinct xs" using Cons.prems(1) by simp
      show "x \<in> set xs" using Cons.prems(2) False by simp
      show "P x" by (rule Cons.prems(3))
      show "\<forall>y\<in>set xs. P y \<longrightarrow> y = x" using Cons.prems(4) by simp
    qed
    ultimately show ?thesis by simp
  qed
qed



lemma epoll_wait_cases:
  "epoll_wait k epfd m t e = Returned (k1, n, evs) \<Longrightarrow>
     (n = -1 \<and> evs = [] \<and> fdtab k1 = fdtab k) \<or>
     (n = 0 \<and> evs = [] \<and> k1 = k \<and> env_fail e = None) \<or>
     (0 < n \<and> k1 = k \<and> n = int (length evs) \<and> env_fail e = None \<and>
        (\<exists>interest. fdtab k epfd = Some (EpollInst interest) \<and> evs = epoll_report k e interest m))"
proof (cases "fdtab k epfd")
  case None
  then show "epoll_wait k epfd m t e = Returned (k1, n, evs) \<Longrightarrow> ?thesis"
    by (auto simp: epoll_wait_def set_errno_def)
next
  case (Some ob)
  show "epoll_wait k epfd m t e = Returned (k1, n, evs) \<Longrightarrow> ?thesis"
  proof (cases ob)
    case (EpollInst interest)
    assume "epoll_wait k epfd m t e = Returned (k1, n, evs)"
    with Some EpollInst show ?thesis
      by (cases "env_fail e"; cases "epoll_report k e interest m = []")
         (auto simp: epoll_wait_def Let_def set_errno_def split: if_splits)
  next
    case (EventCounter c)
    assume "epoll_wait k epfd m t e = Returned (k1, n, evs)"
    with Some EventCounter show ?thesis
      by (auto simp: epoll_wait_def set_errno_def)
  qed
qed

lemma triage_selector:
  "fst (snd (epoll_triage k s piped evs)) =
     s\<lparr>e_pending := e_pending s @ filter (\<lambda>fd. fd \<noteq> e_eventFd s) evs\<rparr>"
  by (induction evs arbitrary: k s piped) simp_all

lemma triage_no_eventfd:
  "e_eventFd s \<notin> set evs \<Longrightarrow>
     epoll_triage k s piped evs = (k, s\<lparr>e_pending := e_pending s @ evs\<rparr>, piped)"
  by (induction evs arbitrary: k s piped) simp_all



lemma e_pending_reset: "e_pending s = [] \<Longrightarrow> s\<lparr>e_pending := []\<rparr> = s"
  by (cases s) simp

lemma p_pending_reset: "p_pending s = [] \<Longrightarrow> s\<lparr>p_pending := []\<rparr> = s"
  by (cases s) simp

section \<open>Draining the pending queue\<close>

lemma posix_pop:
  "p_fds s \<noteq> [] \<Longrightarrow> p_pending s = x # xs \<Longrightarrow>
     posix_wait_one libc k s t e = Returned (k, s\<lparr>p_pending := xs\<rparr>, Some x)"
  by (simp add: posix_wait_one_def posix_try_pop_pending_def)

lemma posix_pop_all:
  "p_fds s \<noteq> [] \<Longrightarrow> p_pending s = xs \<Longrightarrow> length calls = length xs \<Longrightarrow>
     posix_wait_many libc k s calls = Returned (k, s\<lparr>p_pending := []\<rparr>, map Some xs)"
proof (induction xs arbitrary: s calls)
  case Nil
  then show ?case by (simp add: p_pending_reset)
next
  case (Cons x xs)
  from Cons.prems(3) obtain t e calls' where calls: "calls = (t, e) # calls'" and len: "length calls' = length xs"
    by (cases calls) auto
  have one: "posix_wait_one libc k s t e = Returned (k, s\<lparr>p_pending := xs\<rparr>, Some x)"
    using Cons.prems(1,2) by (rule posix_pop)
  have "posix_wait_many libc k (s\<lparr>p_pending := xs\<rparr>) calls' =
          Returned (k, s\<lparr>p_pending := xs\<rparr>\<lparr>p_pending := []\<rparr>, map Some xs)"
    using Cons.prems(1) len Cons.IH [of "s\<lparr>p_pending := xs\<rparr>" calls'] by simp
  with one calls show ?case by simp
qed

lemma epoll_pop:
  "e_pending s = x # xs \<Longrightarrow> epoll_wait_one k s t es = Returned (k, s\<lparr>e_pending := xs\<rparr>, Some x)"
  by (simp add: epoll_wait_one_def epoll_try_pop_pending_def)

lemma epoll_pop_all:
  "e_pending s = xs \<Longrightarrow> length calls = length xs \<Longrightarrow>
     epoll_wait_many k s calls = Returned (k, s\<lparr>e_pending := []\<rparr>, map Some xs)"
proof (induction xs arbitrary: s calls)
  case Nil
  then show ?case by (simp add: e_pending_reset)
next
  case (Cons x xs)
  from Cons.prems(2) obtain t es calls' where calls: "calls = (t, es) # calls'" and len: "length calls' = length xs"
    by (cases calls) auto
  have one: "epoll_wait_one k s t es = Returned (k, s\<lparr>e_pending := xs\<rparr>, Some x)"
    using Cons.prems(1) by (rule epoll_pop)
  have "epoll_wait_many k (s\<lparr>e_pending := xs\<rparr>) calls' =
          Returned (k, s\<lparr>e_pending := xs\<rparr>\<lparr>e_pending := []\<rparr>, map Some xs)"
    using len Cons.IH [of "s\<lparr>e_pending := xs\<rparr>" calls'] by simp
  with one calls show ?case by simp
qed


section \<open>What the select backend keeps\<close>

lemma sys_select_cases:
  "sys_select k nfds rd tv e = Returned (k1, n, rd1) \<Longrightarrow>
     (n = -1 \<and> rd1 = rd \<and> fdtab k1 = fdtab k) \<or>
     (n = 0 \<and> k1 = k \<and> rd1 = select_out k e nfds rd \<and> select_hits k e nfds rd = []) \<or>
     (0 < n \<and> k1 = k \<and> rd1 = select_out k e nfds rd \<and> select_hits k e nfds rd \<noteq> [])"
  by (cases "env_fail e"; cases "select_hits k e nfds rd = []")
     (auto simp: sys_select_def Let_def set_errno_def split: if_splits)

lemma select_out_le: "select_out k e nfds rd fd \<Longrightarrow> rd fd"
  by (auto simp: select_out_def split: if_splits)

lemma posix_scan_in_range:
  "\<forall>fd\<in>set fds. fd_in_range fd \<Longrightarrow> posix_scan libc rd q fds = Returned (q @ filter rd fds)"
  by (induction fds arbitrary: q) (simp_all add: FD_ISSET_def)


lemma posix_wait_one_empty:
  assumes "p_fds s \<noteq> []" and "p_pending s = []"
    and "sys_select (set_errno k EAGAIN) (last (p_fds s) + 1) (p_reader s) (posix_timeval t) e = Returned (k1, n, rd)"
  shows "posix_wait_one libc k s t e =
     (if n \<le> 0 then Returned (k1, s\<lparr>p_reader := rd\<rparr>, None)
      else (case FD_ISSET libc (fst (p_breakPipe s)) rd of
              Aborted \<Rightarrow> Aborted
            | Blocked \<Rightarrow> Blocked
            | Undefined \<Rightarrow> Undefined
            | Returned piped \<Rightarrow>
                if piped then Returned (posix_drain k1 (fst (p_breakPipe s)), s\<lparr>p_reader := rd\<rparr>, None)
                else (case posix_scan libc rd [] (p_fds s) of
                        Aborted \<Rightarrow> Aborted
                      | Blocked \<Rightarrow> Blocked
                      | Undefined \<Rightarrow> Undefined
                      | Returned queue \<Rightarrow>
                          Returned (posix_try_pop_pending k1 (s\<lparr>p_reader := rd, p_pending := queue\<rparr>)))))"
  using assms by (simp add: posix_wait_one_def posix_try_pop_pending_def Let_def split: outcome.splits)

lemma posix_wait_one_returns:
  assumes "posix_wait_one libc k s t e = Returned (k1, s1, r)"
  shows "(\<exists>x xs. p_pending s = x # xs \<and> k1 = k \<and> s1 = s\<lparr>p_pending := xs\<rparr> \<and> r = Some x) \<or>
         (p_pending s = [] \<and>
          (\<exists>k2 n rd. sys_select (set_errno k EAGAIN) (last (p_fds s) + 1) (p_reader s) (posix_timeval t) e =
                        Returned (k2, n, rd) \<and>
             ((n \<le> 0 \<and> k1 = k2 \<and> s1 = s\<lparr>p_reader := rd\<rparr> \<and> r = None) \<or>
              (0 < n \<and> FD_ISSET libc (fst (p_breakPipe s)) rd = Returned True \<and>
               k1 = posix_drain k2 (fst (p_breakPipe s)) \<and> s1 = s\<lparr>p_reader := rd\<rparr> \<and> r = None) \<or>
              (0 < n \<and> FD_ISSET libc (fst (p_breakPipe s)) rd = Returned False \<and>
               (\<exists>q. posix_scan libc rd [] (p_fds s) = Returned q \<and>
                  posix_try_pop_pending k2 (s\<lparr>p_reader := rd, p_pending := q\<rparr>) = (k1, s1, r))))))"
proof -
  from assms have fds: "p_fds s \<noteq> []"
    by (auto simp: posix_wait_one_def split: if_splits)
  show ?thesis
  proof (cases "p_pending s")
    case (Cons x xs)
    with assms fds show ?thesis by (simp add: posix_pop)
  next
    case Nil
    show ?thesis
    proof (cases "sys_select (set_errno k EAGAIN) (last (p_fds s) + 1) (p_reader s) (posix_timeval t) e")
      case (Returned y)
      obtain k2 n rd where y: "y = (k2, n, rd)" by (cases y)
      note sel = Returned [unfolded y]
      note eq = assms [unfolded posix_wait_one_empty [OF fds Nil sel]]
      show ?thesis
      proof (cases "n \<le> 0")
        case True
        with eq Nil sel show ?thesis by simp
      next
        case False
        with eq Nil sel show ?thesis
          by (auto split: outcome.splits if_splits)
      qed
    next
      case Aborted
      with assms Nil fds show ?thesis
        by (simp add: posix_wait_one_def posix_try_pop_pending_def)
    next
      case Blocked
      with assms Nil fds show ?thesis
        by (simp add: posix_wait_one_def posix_try_pop_pending_def)
    next
      case Undefined
      with assms Nil fds show ?thesis
        by (simp add: posix_wait_one_def posix_try_pop_pending_def)
    qed
  qed
qed

lemma posix_try_pop_pending_keeps:
  "posix_try_pop_pending k s = (k1, s1, r) \<Longrightarrow>
     p_fds s1 = p_fds s \<and> p_breakPipe s1 = p_breakPipe s \<and> p_reader s1 = p_reader s \<and>
     set (p_pending s1) \<subseteq> set (p_pending s) \<and> (\<forall>x. r = Some x \<longrightarrow> x \<in> set (p_pending s))"
  by (auto simp: posix_try_pop_pending_def split: list.splits)

lemma posix_wait_one_keeps:
  assumes "posix_wait_one libc k s t e = Returned (k1, s1, r)"
  shows "p_fds s1 = p_fds s \<and> p_breakPipe s1 = p_breakPipe s \<and> (\<forall>fd. p_reader s1 fd \<longrightarrow> p_reader s fd)"
proof -
  have le: "\<forall>fd. rd fd \<longrightarrow> p_reader s fd"
    if "sys_select (set_errno k EAGAIN) (last (p_fds s) + 1) (p_reader s) (posix_timeval t) e = Returned (k2, n, rd)"
    for k2 n rd
    using sys_select_cases [OF that] by (auto dest: select_out_le)
  from posix_wait_one_returns [OF assms] show ?thesis
  proof (elim disjE exE conjE)
    fix x xs
    assume "s1 = s\<lparr>p_pending := xs\<rparr>"
    then show ?thesis by simp
  next
    fix k2 n rd
    assume "sys_select (set_errno k EAGAIN) (last (p_fds s) + 1) (p_reader s) (posix_timeval t) e = Returned (k2, n, rd)"
      and "s1 = s\<lparr>p_reader := rd\<rparr>" and "n \<le> 0"
    with le show ?thesis by simp
  next
    fix k2 n rd
    assume "sys_select (set_errno k EAGAIN) (last (p_fds s) + 1) (p_reader s) (posix_timeval t) e = Returned (k2, n, rd)"
      and "s1 = s\<lparr>p_reader := rd\<rparr>" and "0 < n"
    with le show ?thesis by simp
  next
    fix k2 n rd q
    assume sel: "sys_select (set_errno k EAGAIN) (last (p_fds s) + 1) (p_reader s) (posix_timeval t) e = Returned (k2, n, rd)"
      and pop: "posix_try_pop_pending k2 (s\<lparr>p_reader := rd, p_pending := q\<rparr>) = (k1, s1, r)"
    from posix_try_pop_pending_keeps [OF pop] le [OF sel] show ?thesis by simp
  qed
qed

lemma posix_inv_init: "posix_inv posix_init"
  by (simp add: posix_inv_def posix_init_def)

lemma posix_inv_want_read: "posix_inv s \<Longrightarrow> posix_want_read s fd = Returned s1 \<Longrightarrow> posix_inv s1"
  by (auto simp: posix_inv_def posix_want_read_def split: if_splits)

lemma posix_inv_cancel_read: "posix_inv s \<Longrightarrow> posix_cancel_read s fd = Returned s1 \<Longrightarrow> posix_inv s1"
  by (auto simp: posix_inv_def posix_cancel_read_def removeAll_filter_not_eq sorted_wrt_filter
      split: if_splits)

lemma posix_want_all_keeps:
  "posix_want_all s xs = Returned s1 \<Longrightarrow>
     (posix_inv s \<longrightarrow> posix_inv s1) \<and> p_pending s1 = p_pending s \<and> p_breakPipe s1 = p_breakPipe s"
proof (induction xs arbitrary: s)
  case Nil
  then show ?case by simp
next
  case (Cons x xs)
  from Cons.prems obtain s2 where one: "posix_want_read s x = Returned s2"
    and rest: "posix_want_all s2 xs = Returned s1"
    by (auto split: outcome.splits)
  from one have "p_pending s2 = p_pending s" and "p_breakPipe s2 = p_breakPipe s"
    by (auto simp: posix_want_read_def split: if_splits)
  with Cons.IH [OF rest] posix_inv_want_read [OF _ one] show ?case by auto
qed

lemma posix_create_keeps:
  assumes "posix_create xs = Returned s"
  shows "posix_inv s" and "p_pending s = []" and "p_breakPipe s = (-1, -1)"
  using posix_want_all_keeps [OF assms [unfolded posix_create_def]] posix_inv_init
  by (simp_all add: posix_init_def)

lemma posix_inv_wait_one:
  assumes "posix_inv s" and "posix_wait_one libc k s t e = Returned (k1, s1, r)"
  shows "posix_inv s1"
  using posix_wait_one_keeps [OF assms(2)] assms(1) by (simp add: posix_inv_def)

lemma posix_inv_do:
  assumes "posix_inv s" and "posix_do libc (k, s) c = Returned (k1, s1)"
  shows "posix_inv s1"
proof (cases c)
  case (PWantRead fd)
  with assms show ?thesis by (auto split: outcome.splits intro: posix_inv_want_read)
next
  case (PCancelRead fd)
  with assms show ?thesis by (auto split: outcome.splits intro: posix_inv_cancel_read)
next
  case PWakeup
  with assms show ?thesis by auto
next
  case (PWaitOne t e)
  with assms(2) obtain r where "posix_wait_one libc k s t e = Returned (k1, s1, r)"
    by (auto split: outcome.splits)
  with assms(1) show ?thesis by (rule posix_inv_wait_one)
qed

lemma posix_inv_calls:
  "posix_inv (snd st) \<Longrightarrow> posix_calls libc st cs = Returned (k1, s1) \<Longrightarrow> posix_inv s1"
proof (induction cs arbitrary: st)
  case Nil
  then show ?case by auto
next
  case (Cons c cs)
  obtain k s where st: "st = (k, s)" by (cases st)
  from Cons.prems(2) obtain k2 s2 where step: "posix_do libc (k, s) c = Returned (k2, s2)"
    and rest: "posix_calls libc (k2, s2) cs = Returned (k1, s1)"
    unfolding st by (auto split: outcome.splits)
  from Cons.prems(1) st step have "posix_inv s2" by (auto intro: posix_inv_do)
  then have "posix_inv (snd (k2, s2))" by simp
  from this rest show ?case by (rule Cons.IH)
qed

lemma posix_batch:
  assumes inv: "posix_inv s" and fds: "p_fds s \<noteq> []" and empty: "p_pending s = []"
    and sel: "sys_select (set_errno k EAGAIN) (last (p_fds s) + 1) (p_reader s) (posix_timeval t) e = Returned (k1, n, rd)"
    and pos: "0 < n" and nopipe: "FD_ISSET libc (fst (p_breakPipe s)) rd = Returned False"
    and len: "length calls = length (filter rd (p_fds s)) - 1"
  shows "posix_wait_many libc k s ((t, e) # calls) =
           Returned (k1, s\<lparr>p_reader := rd\<rparr>, map Some (filter rd (p_fds s)))"
    and "filter rd (p_fds s) \<noteq> []" and "sorted (filter rd (p_fds s))"
proof -
  from sys_select_cases [OF sel] pos
  have rd: "rd = select_out (set_errno k EAGAIN) e (last (p_fds s) + 1) (p_reader s)"
    and hits: "select_hits (set_errno k EAGAIN) e (last (p_fds s) + 1) (p_reader s) \<noteq> []"
    by auto
  from hits obtain fd where "fd \<in> set (select_hits (set_errno k EAGAIN) e (last (p_fds s) + 1) (p_reader s))"
    by (cases "select_hits (set_errno k EAGAIN) e (last (p_fds s) + 1) (p_reader s)") auto
  then have "rd fd" and "p_reader s fd"
    unfolding rd by (auto simp: select_hits_def select_out_def)
  with inv have "fd \<in> set (p_fds s)" by (simp add: posix_inv_def)
  with \<open>rd fd\<close> show ne: "filter rd (p_fds s) \<noteq> []"
    by (auto simp: filter_empty_conv)
  then obtain x xs where batch: "filter rd (p_fds s) = x # xs"
    by (cases "filter rd (p_fds s)") auto
  from inv show "sorted (filter rd (p_fds s))"
    by (simp add: posix_inv_def sorted_wrt_filter)
  from inv have "\<forall>fd\<in>set (p_fds s). fd_in_range fd" by (simp add: posix_inv_def)
  then have scan: "posix_scan libc rd [] (p_fds s) = Returned (x # xs)"
    by (simp add: posix_scan_in_range batch)
  have one: "posix_wait_one libc k s t e = Returned (k1, s\<lparr>p_reader := rd, p_pending := xs\<rparr>, Some x)"
    using posix_wait_one_empty [OF fds empty sel, of libc] pos nopipe scan
    by (simp add: posix_try_pop_pending_def)
  have "posix_wait_many libc k1 (s\<lparr>p_reader := rd, p_pending := xs\<rparr>) calls =
          Returned (k1, s\<lparr>p_reader := rd, p_pending := xs\<rparr>\<lparr>p_pending := []\<rparr>, map Some xs)"
    using fds len batch by (intro posix_pop_all) simp_all
  moreover have "s\<lparr>p_reader := rd, p_pending := xs\<rparr>\<lparr>p_pending := []\<rparr> = s\<lparr>p_reader := rd\<rparr>"
    using empty by (cases s) simp
  ultimately show "posix_wait_many libc k s ((t, e) # calls) =
           Returned (k1, s\<lparr>p_reader := rd\<rparr>, map Some (filter rd (p_fds s)))"
    using one batch by simp
qed


lemma epoll_batch:
  assumes empty: "e_pending s = []"
    and wait: "epoll_wait k (e_epollFd s) 64 (epoll_timeout t) e = Returned (k1, n, evs)"
    and pos: "0 < n"
    and batch: "filter (\<lambda>fd. fd \<noteq> e_eventFd s) (take (nat n) evs) \<noteq> []"
    and len: "length calls = length (filter (\<lambda>fd. fd \<noteq> e_eventFd s) (take (nat n) evs)) - 1"
  shows "epoll_wait_many k s ((t, e # es) # calls) =
           Returned (fst (epoll_triage k1 s False (take (nat n) evs)), s,
                     map Some (filter (\<lambda>fd. fd \<noteq> e_eventFd s) (take (nat n) evs)))"
proof -
  obtain k2 s2 piped where tri: "epoll_triage k1 s False (take (nat n) evs) = (k2, s2, piped)"
    by (cases "epoll_triage k1 s False (take (nat n) evs)")
  from batch obtain x xs where b: "filter (\<lambda>fd. fd \<noteq> e_eventFd s) (take (nat n) evs) = x # xs"
    by (cases "filter (\<lambda>fd. fd \<noteq> e_eventFd s) (take (nat n) evs)") auto
  have s2: "s2 = s\<lparr>e_pending := x # xs\<rparr>"
    using triage_selector [of k1 s False "take (nat n) evs"] tri empty b by simp
  have "epoll_wait_one k s t (e # es) = epoll_wait_loop k s t (e # es)"
    using empty by (simp add: epoll_wait_one_def epoll_try_pop_pending_def)
  also have "\<dots> = Returned (k2, s\<lparr>e_pending := xs\<rparr>, Some x)"
    using wait pos tri by (simp add: s2 epoll_try_pop_pending_def)
  finally have one: "epoll_wait_one k s t (e # es) = Returned (k2, s\<lparr>e_pending := xs\<rparr>, Some x)" .
  have "epoll_wait_many k2 (s\<lparr>e_pending := xs\<rparr>) calls =
          Returned (k2, s\<lparr>e_pending := xs\<rparr>\<lparr>e_pending := []\<rparr>, map Some xs)"
    using len b by (intro epoll_pop_all) simp_all
  moreover have "s\<lparr>e_pending := xs\<rparr>\<lparr>e_pending := []\<rparr> = s"
    using empty by (cases s) simp
  ultimately show ?thesis
    using one b tri by simp
qed

section \<open>One readiness call of the epoll backend\<close>

lemma epoll_first_batch:
  assumes "e_pending s = []"
      and "epoll_wait k (e_epollFd s) 64 (epoll_timeout t) e = Returned (k1, n, evs)"
      and "0 < n"
      and "epoll_triage k1 s False (take (nat n) evs) = (k2, s2, piped)"
  shows "epoll_wait_one k s t (e # es) =
           (case filter (\<lambda>fd. fd \<noteq> e_eventFd s) (take (nat n) evs) of
              [] \<Rightarrow> Returned (set_errno k2 (if piped then EINTR else EAGAIN), s, None)
            | fd # rest \<Rightarrow> Returned (k2, s\<lparr>e_pending := rest\<rparr>, Some fd))"
proof -
  have s2: "s2 = s\<lparr>e_pending := filter (\<lambda>fd. fd \<noteq> e_eventFd s) (take (nat n) evs)\<rparr>"
    using triage_selector [of k1 s False "take (nat n) evs"] assms(1,4) by simp
  have "epoll_wait_one k s t (e # es) = epoll_wait_loop k s t (e # es)"
    using assms(1) by (simp add: epoll_wait_one_def epoll_try_pop_pending_def)
  also have "\<dots> = (case epoll_try_pop_pending s2 of
                       (s3, Some fd) \<Rightarrow> Returned (k2, s3, Some fd)
                     | (s3, None) \<Rightarrow> Returned (set_errno k2 (if piped then EINTR else EAGAIN), s3, None))"
    using assms(2,3,4) by simp
  also have "\<dots> = (case filter (\<lambda>fd. fd \<noteq> e_eventFd s) (take (nat n) evs) of
              [] \<Rightarrow> Returned (set_errno k2 (if piped then EINTR else EAGAIN), s, None)
            | fd # rest \<Rightarrow> Returned (k2, s\<lparr>e_pending := rest\<rparr>, Some fd))"
    unfolding s2 using assms(1)
    by (simp add: epoll_try_pop_pending_def e_pending_reset split: list.splits)
  finally show ?thesis .
qed

lemma epoll_wait_one_empty:
  "e_pending s = [] \<Longrightarrow> epoll_wait_one k s t es = epoll_wait_loop k s t es"
  by (simp add: epoll_wait_one_def epoll_try_pop_pending_def)

lemma epoll_wait_one_retries:
  assumes "e_pending s = []"
    and "epoll_wait k (e_epollFd s) 64 (epoll_timeout t) e = Returned (k1, n, evs)"
    and "n < 0" and "k_errno k1 = EINTR"
  shows "epoll_wait_one k s t (e # es) = epoll_wait_one k1 s t es"
  using assms by (simp add: epoll_wait_one_empty)

lemma epoll_wakeup_tab:
  assumes "fdtab k (e_eventFd s) = Some (EventCounter c)"
  shows "\<exists>c'. 0 < c' \<and> fdtab (epoll_wakeup k s) = (fdtab k)(e_eventFd s \<mapsto> EventCounter c')"
proof (cases "2 ^ 64 - 2 < int c + 1")
  case True
  then have "0 < c" by simp
  moreover have "fdtab (epoll_wakeup k s) = (fdtab k)(e_eventFd s \<mapsto> EventCounter c)"
    using assms True by (auto simp: epoll_wakeup_def sys_write_def set_errno_def fun_eq_iff)
  ultimately show ?thesis by blast
next
  case False
  then have "fdtab (epoll_wakeup k s) = (fdtab k)(e_eventFd s \<mapsto> EventCounter (c + 1))"
    using assms by (simp add: epoll_wakeup_def sys_write_def put_obj_def)
  then show ?thesis by (intro exI [of _ "c + 1"]) simp
qed

lemma epoll_wakeup_open: "k_open (epoll_wakeup k s) = k_open k"
  by (auto simp: epoll_wakeup_def sys_write_def set_errno_def put_obj_def
      split: option.splits kobj.splits)

lemma readable_cong:
  "fdtab k1 fd = fdtab k fd \<Longrightarrow> k_open k1 = k_open k \<Longrightarrow> readable k1 e fd = readable k e fd"
  by (simp add: readable_def split: option.splits)

section \<open>The wake descriptor and the pending queue\<close>




lemma posix_calls_breakPipe:
  "posix_calls libc st cs = Returned (k1, s1) \<Longrightarrow> p_breakPipe s1 = p_breakPipe (snd st)"
proof (induction cs arbitrary: st)
  case Nil
  then show ?case by auto
next
  case (Cons c cs)
  obtain k s where st: "st = (k, s)" by (cases st)
  from Cons.prems obtain k2 s2 where step: "posix_do libc (k, s) c = Returned (k2, s2)"
    and rest: "posix_calls libc (k2, s2) cs = Returned (k1, s1)"
    unfolding st by (auto split: outcome.splits)
  have "p_breakPipe s2 = p_breakPipe s"
  proof (cases c)
    case (PWantRead fd)
    with step show ?thesis by (auto simp: posix_want_read_def split: if_splits)
  next
    case (PCancelRead fd)
    with step show ?thesis by (auto simp: posix_cancel_read_def split: if_splits)
  next
    case PWakeup
    with step show ?thesis by auto
  next
    case (PWaitOne t e)
    with step obtain r where "posix_wait_one libc k s t e = Returned (k2, s2, r)"
      by (auto split: outcome.splits)
    then show ?thesis by (simp add: posix_wait_one_keeps)
  qed
  with Cons.IH [OF rest] st show ?case by simp
qed


lemma is_eventfd_iff: "is_eventfd k fd \<longleftrightarrow> (\<exists>c. fdtab k fd = Some (EventCounter c))"
  by (auto simp: is_eventfd_def split: option.splits kobj.splits)

lemma is_eventfd_epoll_ctl: "is_eventfd (fst (epoll_ctl k epfd ctl fd)) x = is_eventfd k x"
  by (auto simp: is_eventfd_def epoll_ctl_def set_errno_def put_obj_def
      split: option.splits kobj.splits epoll_op.splits)

lemma is_eventfd_sys_write: "is_eventfd (fst (sys_write k fd count val)) x = is_eventfd k x"
  by (auto simp: is_eventfd_def sys_write_def set_errno_def put_obj_def
      split: option.splits kobj.splits)

lemma is_eventfd_sys_read: "is_eventfd (fst (sys_read k fd count)) x = is_eventfd k x"
  by (auto simp: is_eventfd_def sys_read_def set_errno_def put_obj_def
      split: option.splits kobj.splits)

lemma is_eventfd_set_errno: "is_eventfd (set_errno k err) x = is_eventfd k x"
  by (simp add: is_eventfd_def set_errno_def)

lemma is_eventfd_triage: "is_eventfd (fst (epoll_triage k s piped evs)) x = is_eventfd k x"
  by (induction evs arbitrary: k s piped) (simp_all add: is_eventfd_sys_read)

lemma is_eventfd_tab: "fdtab k1 = fdtab k \<Longrightarrow> is_eventfd k1 x = is_eventfd k x"
  by (simp add: is_eventfd_def)

lemma sys_read_other: "x \<noteq> fd \<Longrightarrow> fdtab (fst (sys_read k fd count)) x = fdtab k x"
  by (auto simp: sys_read_def set_errno_def put_obj_def split: option.splits kobj.splits)

lemma triage_fdtab_other:
  "x \<noteq> e_eventFd s \<Longrightarrow> fdtab (fst (epoll_triage k s piped evs)) x = fdtab k x"
  by (induction evs arbitrary: k s piped) (simp_all add: sys_read_other)

lemma epoll_wait_loop_result:
  assumes "e_pending s = []" and "epoll_wait_loop k s t es = Returned (k1, s1, r)"
  shows "e_eventFd s1 = e_eventFd s \<and> e_epollFd s1 = e_epollFd s \<and>
         e_eventFd s \<notin> set (e_pending s1) \<and> r \<noteq> Some (e_eventFd s) \<and>
         is_eventfd k1 x = is_eventfd k x \<and> (r = None \<longrightarrow> s1 = s) \<and>
         (x \<noteq> e_eventFd s \<longrightarrow> fdtab k1 x = fdtab k x)"
  using assms
proof (induction es arbitrary: k)
  case Nil
  then show ?case by simp
next
  case (Cons e es)
  show ?case
  proof (cases "epoll_wait k (e_epollFd s) 64 (epoll_timeout t) e")
    case (Returned y)
    obtain k2 n evs where y: "y = (k2, n, evs)" by (cases y)
    note wait = Returned [unfolded y]
    from epoll_wait_cases [OF wait] have tab: "fdtab k2 = fdtab k" by auto
    then have kind: "is_eventfd k2 x = is_eventfd k x" by (rule is_eventfd_tab)
    consider (zero) "n = 0" | (neg) "n < 0" | (pos) "0 < n" by linarith
    then show ?thesis
    proof cases
      case zero
      with Cons.prems(2) wait have "k1 = set_errno k2 EAGAIN" and "s1 = s" and "r = None" by simp_all
      with Cons.prems(1) tab show ?thesis by (simp add: is_eventfd_def set_errno_def)
    next
      case neg
      show ?thesis
      proof (cases "k_errno k2 = EINTR")
        case True
        with Cons.prems(2) wait neg have "epoll_wait_loop k2 s t es = Returned (k1, s1, r)" by simp
        from Cons.IH [OF Cons.prems(1) this] kind tab show ?thesis by simp
      next
        case False
        with Cons.prems(2) wait neg have "k1 = k2" and "s1 = s" and "r = None" by simp_all
        with Cons.prems(1) kind tab show ?thesis by simp
      qed
    next
      case pos
      obtain k3 s3 piped where tri: "epoll_triage k2 s False (take (nat n) evs) = (k3, s3, piped)"
        by (cases "epoll_triage k2 s False (take (nat n) evs)")
      have k3: "is_eventfd k3 x = is_eventfd k x"
        using is_eventfd_triage [of k2 s False "take (nat n) evs" x] tri kind by simp
      have k3': "x \<noteq> e_eventFd s \<longrightarrow> fdtab k3 x = fdtab k x"
        using triage_fdtab_other [of x s k2 False "take (nat n) evs"] tri tab by simp
      from epoll_first_batch [OF Cons.prems(1) wait pos tri, of es] Cons.prems
      have res: "Returned (k1, s1, r) =
           (case filter (\<lambda>fd. fd \<noteq> e_eventFd s) (take (nat n) evs) of
              [] \<Rightarrow> Returned (set_errno k3 (if piped then EINTR else EAGAIN), s, None)
            | fd # rest \<Rightarrow> Returned (k3, s\<lparr>e_pending := rest\<rparr>, Some fd))"
        by (simp add: epoll_wait_one_empty)
      show ?thesis
      proof (cases "filter (\<lambda>fd. fd \<noteq> e_eventFd s) (take (nat n) evs)")
        case Nil
        with res have "k1 = set_errno k3 (if piped then EINTR else EAGAIN)" and "s1 = s" and "r = None"
          by simp_all
        moreover have "is_eventfd (set_errno k3 (if piped then EINTR else EAGAIN)) x = is_eventfd k x"
          using k3 by (simp add: is_eventfd_set_errno)
        moreover have "x \<noteq> e_eventFd s \<longrightarrow> fdtab (set_errno k3 (if piped then EINTR else EAGAIN)) x = fdtab k x"
          using k3' by (simp add: set_errno_def)
        ultimately show ?thesis using Cons.prems(1) by simp
      next
        case (Cons fd rest)
        with res have "k1 = k3" and s1: "s1 = s\<lparr>e_pending := rest\<rparr>" and r: "r = Some fd"
          by simp_all
        have "\<forall>z\<in>set (fd # rest). z \<noteq> e_eventFd s"
          using Cons [symmetric] by simp
        with s1 r \<open>k1 = k3\<close> k3 k3' show ?thesis by auto
      qed
    qed
  next
    case Aborted
    with Cons.prems show ?thesis by simp
  next
    case Blocked
    with Cons.prems show ?thesis by simp
  next
    case Undefined
    with Cons.prems show ?thesis by simp
  qed
qed

lemma epoll_wait_one_result:
  assumes "e_eventFd s \<notin> set (e_pending s)" and "epoll_wait_one k s t es = Returned (k1, s1, r)"
  shows "e_eventFd s1 = e_eventFd s \<and> e_epollFd s1 = e_epollFd s \<and>
         e_eventFd s \<notin> set (e_pending s1) \<and> r \<noteq> Some (e_eventFd s) \<and>
         is_eventfd k1 x = is_eventfd k x \<and> (r = None \<longrightarrow> s1 = s) \<and>
         (x \<noteq> e_eventFd s \<longrightarrow> fdtab k1 x = fdtab k x)"
proof (cases "e_pending s")
  case Nil
  with assms(2) have "epoll_wait_loop k s t es = Returned (k1, s1, r)"
    by (simp add: epoll_wait_one_empty)
  with Nil show ?thesis by (rule epoll_wait_loop_result)
next
  case (Cons y ys)
  with assms(2) have "k1 = k" and "s1 = s\<lparr>e_pending := ys\<rparr>" and "r = Some y"
    by (simp_all add: epoll_pop)
  with assms(1) Cons show ?thesis by auto
qed

lemma epoll_wait_one_None_keeps:
  assumes "epoll_wait_one k s t es = Returned (k1, s1, None)" and "x \<noteq> e_eventFd s"
  shows "s1 = s \<and> fdtab k1 x = fdtab k x"
proof (cases "e_pending s")
  case Nil
  with assms(1) have "epoll_wait_loop k s t es = Returned (k1, s1, None)"
    by (simp add: epoll_wait_one_empty)
  from epoll_wait_loop_result [OF Nil this, of x] assms(2) show ?thesis by simp
next
  case (Cons y ys)
  with assms(1) show ?thesis by (simp add: epoll_pop)
qed

lemma epoll_do_inv:
  assumes "e_eventFd s \<notin> set (e_pending s)" and "is_eventfd k (e_eventFd s)"
    and "epoll_do (k, s) c = Returned (k1, s1)"
  shows "e_eventFd s1 \<notin> set (e_pending s1) \<and> is_eventfd k1 (e_eventFd s1)"
proof (cases c)
  case (EWantRead fd)
  with assms show ?thesis by (auto simp: epoll_want_read_def is_eventfd_epoll_ctl)
next
  case (ECancelRead fd)
  with assms show ?thesis by (auto simp: epoll_cancel_read_def is_eventfd_epoll_ctl)
next
  case EWakeup
  with assms show ?thesis by (auto simp: epoll_wakeup_def is_eventfd_sys_write)
next
  case (EWaitOne t es)
  with assms(3) obtain r where "epoll_wait_one k s t es = Returned (k1, s1, r)"
    by (auto split: outcome.splits)
  from epoll_wait_one_result [OF assms(1) this, of "e_eventFd s"] assms(2)
  show ?thesis by simp
qed


lemma epoll_new_result:
  assumes "epoll_new k new1 new2 = Returned (k1, s)"
  shows "s = \<lparr>e_epollFd = new1, e_eventFd = new2, e_pending = []\<rparr> \<and> new1 \<noteq> new2 \<and>
         \<not> is_open k new1 \<and> \<not> is_open k new2 \<and> k_open k1 = k_open k \<and> k_errno k1 = k_errno k \<and>
         fdtab k1 = (fdtab k)(new1 \<mapsto> EpollInst [new2], new2 \<mapsto> EventCounter 0)"
  using assms
  by (auto simp: epoll_new_def epoll_create1_def eventfd_def epoll_ctl_def put_obj_def set_errno_def
      is_open_def fun_eq_iff split: if_splits)

lemma epoll_new_delete:
  assumes "epoll_new k new1 new2 = Returned (k1, s)"
  shows "\<exists>k2. epoll_delete k1 s = (k2, 0, 0) \<and> fdtab k2 new1 = None \<and> fdtab k2 new2 = None"
proof -
  from epoll_new_result [OF assms]
  have s: "s = \<lparr>e_epollFd = new1, e_eventFd = new2, e_pending = []\<rparr>" and ne: "new1 \<noteq> new2"
    and tab: "fdtab k1 = (fdtab k)(new1 \<mapsto> EpollInst [new2], new2 \<mapsto> EventCounter 0)"
    by simp_all
  show ?thesis
    unfolding s epoll_delete_def sys_close_def
    using ne by (simp add: tab is_open_def dom_def)
qed


lemma epoll_watching_iff:
  "epoll_watching k s \<longleftrightarrow>
     (\<exists>interest c. fdtab k (e_epollFd s) = Some (EpollInst interest) \<and>
        fdtab k (e_eventFd s) = Some (EventCounter c) \<and> e_eventFd s \<in> set interest)"
  by (auto simp: epoll_watching_def is_eventfd_iff split: option.splits kobj.splits)

lemma epoll_watching_ctl:
  assumes "epoll_watching k s" and "ctl = EPOLL_CTL_DEL \<longrightarrow> fd \<noteq> e_eventFd s"
  shows "epoll_watching (fst (epoll_ctl k (e_epollFd s) ctl fd)) s"
proof -
  from assms(1) obtain interest c where ep: "fdtab k (e_epollFd s) = Some (EpollInst interest)"
    and ev: "fdtab k (e_eventFd s) = Some (EventCounter c)" and mem: "e_eventFd s \<in> set interest"
    by (auto simp: epoll_watching_iff)
  from ep ev have ne: "e_epollFd s \<noteq> e_eventFd s" by auto
  show ?thesis
    unfolding epoll_watching_iff
    using ep ev mem ne assms(2)
    by (cases ctl) (auto simp: epoll_ctl_def set_errno_def put_obj_def)
qed

lemma epoll_watching_wakeup:
  assumes "epoll_watching k s"
  shows "epoll_watching (epoll_wakeup k s) s"
proof -
  from assms obtain interest c where ep: "fdtab k (e_epollFd s) = Some (EpollInst interest)"
    and ev: "fdtab k (e_eventFd s) = Some (EventCounter c)" and mem: "e_eventFd s \<in> set interest"
    by (auto simp: epoll_watching_iff)
  from ep ev have ne: "e_epollFd s \<noteq> e_eventFd s" by auto
  from epoll_wakeup_tab [OF ev] obtain c' where "fdtab (epoll_wakeup k s) = (fdtab k)(e_eventFd s \<mapsto> EventCounter c')"
    by blast
  with ep mem ne show ?thesis
    unfolding epoll_watching_iff by auto
qed

lemma epoll_watching_wait_one:
  assumes "epoll_watching k s" and "e_eventFd s \<notin> set (e_pending s)"
    and "epoll_wait_one k s t es = Returned (k1, s1, r)"
  shows "epoll_watching k1 s1"
proof -
  from assms(1) obtain interest c where ep: "fdtab k (e_epollFd s) = Some (EpollInst interest)"
    and ev: "fdtab k (e_eventFd s) = Some (EventCounter c)" and mem: "e_eventFd s \<in> set interest"
    by (auto simp: epoll_watching_iff)
  from ep ev have ne: "e_epollFd s \<noteq> e_eventFd s" by auto
  from epoll_wait_one_result [OF assms(2,3), of "e_epollFd s"] ne
  have a: "e_eventFd s1 = e_eventFd s" and b: "e_epollFd s1 = e_epollFd s"
    and c: "fdtab k1 (e_epollFd s) = fdtab k (e_epollFd s)" by simp_all
  from epoll_wait_one_result [OF assms(2,3), of "e_eventFd s"] ev
  have "is_eventfd k1 (e_eventFd s)" by (simp add: is_eventfd_iff)
  with a b c ep mem show ?thesis
    by (simp add: epoll_watching_def)
qed

lemma epoll_calls_watching:
  "epoll_watching (fst st) (snd st) \<Longrightarrow> e_eventFd (snd st) \<notin> set (e_pending (snd st)) \<Longrightarrow>
   ECancelRead (e_eventFd (snd st)) \<notin> set cs \<Longrightarrow> epoll_calls st cs = Returned (k1, s1) \<Longrightarrow>
     epoll_watching k1 s1 \<and> e_eventFd s1 = e_eventFd (snd st)"
proof (induction cs arbitrary: st)
  case Nil
  then show ?case by auto
next
  case (Cons c cs)
  obtain k s where st: "st = (k, s)" by (cases st)
  from Cons.prems(4) obtain k2 s2 where step: "epoll_do (k, s) c = Returned (k2, s2)"
    and rest: "epoll_calls (k2, s2) cs = Returned (k1, s1)"
    unfolding st by (auto split: outcome.splits)
  from Cons.prems(1,2,3) have w: "epoll_watching k s" and q: "e_eventFd s \<notin> set (e_pending s)"
    and nc: "c \<noteq> ECancelRead (e_eventFd s)" and ncs: "ECancelRead (e_eventFd s) \<notin> set cs"
    unfolding st by auto
  from w have kind: "is_eventfd k (e_eventFd s)"
    by (auto simp: epoll_watching_iff is_eventfd_iff)
  have w2: "epoll_watching k2 s2 \<and> e_eventFd s2 = e_eventFd s"
  proof (cases c)
    case (EWantRead fd)
    with step w epoll_watching_ctl [of k s EPOLL_CTL_ADD fd] show ?thesis
      by (auto simp: epoll_want_read_def)
  next
    case (ECancelRead fd)
    with step w nc epoll_watching_ctl [of k s EPOLL_CTL_DEL fd] show ?thesis
      by (auto simp: epoll_cancel_read_def)
  next
    case EWakeup
    with step w show ?thesis by (auto simp: epoll_watching_wakeup)
  next
    case (EWaitOne t es)
    with step obtain r where run: "epoll_wait_one k s t es = Returned (k2, s2, r)"
      by (auto split: outcome.splits)
    from epoll_watching_wait_one [OF w q run] epoll_wait_one_result [OF q run, of 0]
    show ?thesis by simp
  qed
  from epoll_do_inv [OF q kind step] have q2: "e_eventFd s2 \<notin> set (e_pending s2)" by simp
  from w2 q2 ncs have "epoll_watching (fst (k2, s2)) (snd (k2, s2))"
    and "e_eventFd (snd (k2, s2)) \<notin> set (e_pending (snd (k2, s2)))"
    and "ECancelRead (e_eventFd (snd (k2, s2))) \<notin> set cs" by simp_all
  from Cons.IH [OF this rest] w2 st show ?case by simp
qed

lemma epoll_new_watching:
  assumes "epoll_new k new1 new2 = Returned (k1, s)"
  shows "epoll_watching k1 s \<and> e_eventFd s \<notin> set (e_pending s)"
  using epoll_new_result [OF assms]
  by (auto simp: epoll_watching_def is_eventfd_def)

lemma epoll_want_read_twice:
  "fdtab (epoll_want_read (epoll_want_read k s fd) s fd) = fdtab (epoll_want_read k s fd)"
  by (auto simp: epoll_want_read_def epoll_ctl_def set_errno_def put_obj_def is_open_def
      split: option.splits kobj.splits)


section \<open>What \<^verbatim>\<open>create\<close> returns\<close>

lemma foldr_insort_insort:
  "foldr insort (insort x zs) acc = insort x (foldr insort zs acc)"
  by (induction zs) (simp_all add: insort_left_comm)

lemma foldr_insort_sort: "foldr insort (sort xs) acc = foldr insort xs acc"
  by (induction xs) (simp_all add: foldr_insort_insort)

lemma sort_append_foldr: "sort (xs @ ys) = foldr insort xs (sort ys)"
  by (induction xs) simp_all

lemma sort_sort_append: "sort (sort xs @ ys) = sort (xs @ ys)"
  by (simp add: sort_append_foldr foldr_insort_sort)

lemma posix_want_all_in_range:
  "\<forall>fd\<in>set xs. fd_in_range fd \<Longrightarrow> sorted (p_fds s) \<Longrightarrow>
     posix_want_all s xs =
       Returned (s\<lparr>p_reader := (\<lambda>fd. p_reader s fd \<or> fd \<in> set xs), p_fds := sort (p_fds s @ xs)\<rparr>)"
proof (induction xs arbitrary: s)
  case Nil
  then show ?case by (simp add: sorted_sort_id)
next
  case (Cons x xs)
  let ?s2 = "s\<lparr>p_reader := (p_reader s)(x := True), p_fds := sort (p_fds s @ [x])\<rparr>"
  from Cons.prems(1) have one: "posix_want_read s x = Returned ?s2"
    by (simp add: posix_want_read_def)
  from Cons.prems(1) have "\<forall>fd\<in>set xs. fd_in_range fd" by simp
  moreover have "sorted (p_fds ?s2)" by simp
  ultimately have "posix_want_all ?s2 xs =
       Returned (?s2\<lparr>p_reader := (\<lambda>fd. p_reader ?s2 fd \<or> fd \<in> set xs), p_fds := sort (p_fds ?s2 @ xs)\<rparr>)"
    by (rule Cons.IH)
  moreover have "sort (sort (p_fds s @ [x]) @ xs) = sort (p_fds s @ x # xs)"
    using sort_sort_append [of "p_fds s @ [x]" xs] by simp
  moreover have "(\<lambda>fd. ((p_reader s)(x := True)) fd \<or> fd \<in> set xs) = (\<lambda>fd. p_reader s fd \<or> fd \<in> set (x # xs))"
    by (auto simp: fun_eq_iff)
  ultimately show ?case using one by simp
qed

lemma posix_want_all_out_of_range:
  "\<exists>fd\<in>set xs. \<not> fd_in_range fd \<Longrightarrow> posix_want_all s xs = Undefined"
proof (induction xs arbitrary: s)
  case Nil
  then show ?case by simp
next
  case (Cons x xs)
  show ?case
  proof (cases "fd_in_range x")
    case True
    with Cons.prems have "\<exists>fd\<in>set xs. \<not> fd_in_range fd" by auto
    then have "posix_want_all s' xs = Undefined" for s' by (rule Cons.IH)
    with True show ?thesis by (simp add: posix_want_read_def)
  next
    case False
    then show ?thesis by (simp add: posix_want_read_def)
  qed
qed

lemma posix_create_watching:
  "posix_create xs = (if \<forall>fd\<in>set xs. fd_in_range fd then Returned (watching xs) else Undefined)"
proof (cases "\<forall>fd\<in>set xs. fd_in_range fd")
  case True
  then have "posix_want_all posix_init xs =
       Returned (posix_init\<lparr>p_reader := (\<lambda>fd. p_reader posix_init fd \<or> fd \<in> set xs),
                            p_fds := sort (p_fds posix_init @ xs)\<rparr>)"
    by (rule posix_want_all_in_range) (simp add: posix_init_def)
  with True show ?thesis by (simp add: posix_create_def posix_init_def watching_def)
next
  case False
  then have "posix_want_all posix_init xs = Undefined"
    by (intro posix_want_all_out_of_range) simp
  with False show ?thesis by (simp add: posix_create_def)
qed


section \<open>The claims\<close>

subsection \<open>C1: a wakeup before the next retrieval\<close>

text \<open>
  C1 says that after \<^verbatim>\<open>wakeup\<close>, called while no retrieval is in progress and with a real
  descriptor registered, the next \<^verbatim>\<open>wait_one\<close> returns Interrupted, in both backends. In
  the epoll backend that is not so when a registered descriptor is readable at the same
  time: descriptor 5 is returned, the eventfd has been read, and the wakeup is gone.
\<close>

theorem wakeup_lost_to_ready_descriptor_counterexample:
  "epoll_wait_one (epoll_wakeup kernel345 selector34) selector34 (Some 1000) [ready_env [5]] =
     Returned (kernel345, selector34, Some 5)"
  by (auto simp add: kernel_defs epoll_defs example_defs Let_def fun_eq_iff)

text \<open>
  C1 as amended, for the epoll backend. Take a selector that was constructed and then used
  through any calls that never cancel its own eventfd; let its pending queue be empty, and
  let the readiness call not fail and find no descriptor of the interest list readable
  other than the eventfd. Then after \<^verbatim>\<open>wakeup\<close> the next \<^verbatim>\<open>wait_one\<close> returns, whatever its
  timeout (also without one), with no descriptor and \<^verbatim>\<open>errno = EINTR\<close>, which is the
  Interrupted outcome; the selector is unchanged and the eventfd's counter is zero again.
\<close>

theorem epoll_wakeup_interrupts_next_wait:
  assumes new: "epoll_new k0 new1 new2 = Returned st0"
    and calls: "epoll_calls st0 cs = Returned (k, s)"
    and nocancel: "ECancelRead new2 \<notin> set cs"
    and epfd: "fdtab k (e_epollFd s) = Some (EpollInst interest)"
    and empty: "e_pending s = []"
    and nofail: "env_fail e = None"
    and quiet: "\<forall>fd\<in>set interest. fd \<noteq> e_eventFd s \<longrightarrow> \<not> readable k e fd"
  shows "epoll_wait_one (epoll_wakeup k s) s timeout (e # es) =
           Returned (k\<lparr>fdtab := (fdtab k)(e_eventFd s \<mapsto> EventCounter 0), k_errno := EINTR\<rparr>, s, None)"
proof -
  let ?k = "epoll_wakeup k s"
  let ?ev = "e_eventFd s"
  obtain ka sa where st0: "st0 = (ka, sa)" by (cases st0)
  from epoll_new_result [OF new [unfolded st0]] have ev0: "e_eventFd sa = new2" by simp
  from epoll_new_watching [OF new [unfolded st0]]
  have "epoll_watching (fst st0) (snd st0)" and "e_eventFd (snd st0) \<notin> set (e_pending (snd st0))"
    unfolding st0 by simp_all
  moreover from nocancel ev0 have "ECancelRead (e_eventFd (snd st0)) \<notin> set cs"
    unfolding st0 by simp
  ultimately have "epoll_watching k s"
    using calls epoll_calls_watching by blast
  with epfd obtain c where evfd: "fdtab k ?ev = Some (EventCounter c)" and watched: "?ev \<in> set interest"
    by (auto simp: epoll_watching_iff)
  from epoll_wakeup_tab [OF evfd] obtain c' where c': "0 < c'"
    and tab: "fdtab ?k = (fdtab k)(?ev \<mapsto> EventCounter c')" by blast
  from epfd evfd have ne: "e_epollFd s \<noteq> ?ev" by auto
  have epfd': "fdtab ?k (e_epollFd s) = Some (EpollInst interest)"
    using epfd ne by (simp add: tab)
  have evfd': "fdtab ?k ?ev = Some (EventCounter c')"
    by (simp add: tab)
  have rd_ev: "readable ?k e ?ev"
    using c' by (simp add: readable_def evfd')
  have rd_other: "\<not> readable ?k e fd" if "fd \<in> set interest" and "fd \<noteq> ?ev" for fd
  proof -
    from that have "fdtab ?k fd = fdtab k fd" by (simp add: tab)
    then have "readable ?k e fd = readable k e fd"
      using epoll_wakeup_open by (rule readable_cong)
    with quiet that show ?thesis by simp
  qed
  let ?cands = "remdups (env_ready e) @ filter (\<lambda>fd. fd \<notin> set (env_ready e)) (remdups interest)"
  have "filter (\<lambda>fd. fd \<in> set interest \<and> readable ?k e fd) ?cands = [?ev]"
  proof (rule filter_single)
    show "distinct ?cands" by auto
    show "?ev \<in> set ?cands" using watched by auto
    show "?ev \<in> set interest \<and> readable ?k e ?ev" using watched rd_ev by simp
    show "\<forall>y\<in>set ?cands. y \<in> set interest \<and> readable ?k e y \<longrightarrow> y = ?ev"
      using rd_other by blast
  qed
  then have report: "epoll_report ?k e interest 64 = [?ev]"
    by (simp add: epoll_report_def)
  have wait: "epoll_wait ?k (e_epollFd s) 64 (epoll_timeout timeout) e = Returned (?k, 1, [?ev])"
    using epfd' nofail report by (simp add: epoll_wait_def)
  have read: "sys_read ?k ?ev 8 = (put_obj ?k ?ev (EventCounter 0), 8)"
    using evfd' c' by (simp add: sys_read_def)
  have tri: "epoll_triage ?k s False (take (nat 1) [?ev]) = (put_obj ?k ?ev (EventCounter 0), s, True)"
    by (simp add: read)
  have final: "set_errno (put_obj ?k ?ev (EventCounter 0)) EINTR =
                 k\<lparr>fdtab := (fdtab k)(?ev \<mapsto> EventCounter 0), k_errno := EINTR\<rparr>"
    by (rule kernel.equality) (simp_all add: set_errno_def put_obj_def tab epoll_wakeup_open)
  from epoll_first_batch [OF empty wait _ tri, of es] show ?thesis
    by (simp add: final)
qed

theorem epoll_wakeup_interrupts_next_wait_witness:
  "epoll_new kernel0 3 4 =
     Returned (kernel0\<lparr>fdtab := (\<lambda>fd. None)(4 \<mapsto> EventCounter 0, 3 \<mapsto> EpollInst [4])\<rparr>, selector34) \<and>
   epoll_calls (kernel0\<lparr>fdtab := (\<lambda>fd. None)(4 \<mapsto> EventCounter 0, 3 \<mapsto> EpollInst [4])\<rparr>, selector34)
       [EWantRead 5] = Returned (kernel345, selector34) \<and>
   fdtab kernel345 (e_epollFd selector34) = Some (EpollInst [4, 5]) \<and>
   e_pending selector34 = [] \<and>
   env_fail (ready_env []) = None \<and>
   epoll_wait_one (epoll_wakeup kernel345 selector34) selector34 None [ready_env []] =
     Returned (kernel345\<lparr>k_errno := EINTR\<rparr>, selector34, None)"
proof -
  let ?k1 = "kernel0\<lparr>fdtab := (\<lambda>fd. None)(4 \<mapsto> EventCounter 0, 3 \<mapsto> EpollInst [4])\<rparr>"
  have h1: "epoll_new kernel0 3 4 = Returned (?k1, selector34)"
    by (auto simp add: kernel_defs epoll_defs example_defs Let_def fun_eq_iff)
  have h2: "epoll_calls (?k1, selector34) [EWantRead 5] = Returned (kernel345, selector34)"
    by (auto simp add: kernel_defs epoll_defs example_defs Let_def fun_eq_iff)
  have h3: "ECancelRead 4 \<notin> set [EWantRead 5]"
    by simp
  have h4: "fdtab kernel345 (e_epollFd selector34) = Some (EpollInst [4, 5])"
    by (simp add: example_defs)
  have h5: "e_pending selector34 = []"
    by (simp add: example_defs)
  have h6: "env_fail (ready_env []) = None"
    by (simp add: example_defs)
  have h7: "\<forall>fd\<in>set [4, 5]. fd \<noteq> e_eventFd selector34 \<longrightarrow> \<not> readable kernel345 (ready_env []) fd"
    by (simp add: example_defs readable_def)
  have k: "kernel345\<lparr>fdtab := (fdtab kernel345)(e_eventFd selector34 \<mapsto> EventCounter 0), k_errno := EINTR\<rparr> =
        kernel345\<lparr>k_errno := EINTR\<rparr>"
    by (auto simp add: example_defs fun_eq_iff)
  from epoll_wakeup_interrupts_next_wait [OF h1 h2 h3 h4 h5 h6 h7, of None "[]"]
  have run: "epoll_wait_one (epoll_wakeup kernel345 selector34) selector34 None [ready_env []] =
     Returned (kernel345\<lparr>k_errno := EINTR\<rparr>, selector34, None)"
    unfolding k .
  show ?thesis
    by (intro conjI) (rule h1 h2 h4 h5 h6 run)+
qed

subsection \<open>C2: every descriptor of a batch exactly once\<close>

text \<open>
  C2: the registered descriptors that are ready together are each delivered exactly once,
  none lost and none twice. On the select backend a descriptor registered twice is
  delivered twice from one batch: \<^verbatim>\<open>create\<close> with descriptor 5 twice gives a selector
  whose second \<^verbatim>\<open>wait_one\<close> returns 5 again without asking the kernel (its environment
  would block). The C library is glibc on x86-64, where the test of bit \<open>-1\<close> reads the
  clear bit 63.
\<close>

theorem posix_duplicate_delivered_twice:
  "posix_create [5, 5] = Returned (watching [5, 5]) \<and>
   posix_wait_many glibc_x86_64 kernel0 (watching [5, 5]) [(None, ready_env [5]), (None, ready_env [])] =
     Returned (kernel0\<lparr>k_errno := EAGAIN\<rparr>, watching [5, 5], [Some 5, Some 5])"
  by (auto simp add: kernel_defs posix_defs example_defs Let_def upto.simps fun_eq_iff)

text \<open>
  The select backend also loses descriptors: \<^verbatim>\<open>select\<close> clears the bit of every watched
  descriptor that is not ready, in the selector's own bitmap, so after a first call that
  finds only 5 ready, 9 is not watched any more. A second call with 5 and 9 both readable
  delivers 5 alone, and a third call with 9 readable times out.
\<close>

lemma posix_unready_descriptor_dropped:
  "posix_wait_many glibc_x86_64 kernel0 (watching [5, 9])
     [(None, ready_env [5]), (Some 10, ready_env [5, 9]), (Some 10, ready_env [9])] =
   Returned (kernel0\<lparr>k_errno := EAGAIN\<rparr>, (watching [5, 9])\<lparr>p_reader := (\<lambda>fd. False)\<rparr>,
             [Some 5, Some 5, None])"
  by (auto simp add: kernel_defs posix_defs example_defs Let_def upto.simps fun_eq_iff)

subsection \<open>C3: creation and destruction of the wakeup channel\<close>

text \<open>
  C3: each backend creates its wakeup channel once at construction (a pipe for the select
  backend), it exists and is watched for the whole lifetime, and destruction destroys it
  once. The epoll constructor and destructor do so for the eventfd (\<open>epoll_new_result\<close>,
  \<open>epoll_new_delete\<close>), and the eventfd stays watched as long as the caller does not cancel
  it (\<open>epoll_new_watching\<close>, \<open>epoll_calls_watching\<close>). The select backend never creates the
  pipe: whatever descriptors \<^verbatim>\<open>create\<close> is given, the selector it returns has \<^verbatim>\<open>_breakPipe\<close>
  equal to \<open>(-1, -1)\<close>, no later call changes it (\<open>posix_calls_breakPipe\<close>), and \<^verbatim>\<open>wakeup\<close>
  on the selector does nothing at all. \<^verbatim>\<open>create\<close> returns for every list of descriptors
  that fit an \<^verbatim>\<open>fd_set\<close> (\<open>posix_create_watching\<close>).
\<close>

theorem posix_create_no_pipe:
  assumes "posix_create xs = Returned s"
  shows "p_breakPipe s = (-1, -1) \<and> posix_wakeup k s = k"
  using posix_create_keeps(3) [OF assms] by (simp add: posix_wakeup_def)

theorem posix_create_no_pipe_witness:
  "posix_create [5] = Returned (watching [5]) \<and>
   p_breakPipe (watching [5]) = (-1, -1) \<and> posix_wakeup kernel0 (watching [5]) = kernel0"
proof -
  have h: "posix_create [5] = Returned (watching [5])"
    by (auto simp add: kernel_defs posix_defs example_defs fun_eq_iff)
  from posix_create_no_pipe [OF h, of kernel0] h show ?thesis by simp
qed

subsection \<open>C4: registering a descriptor twice\<close>

text \<open>
  C4: registering a descriptor that is already registered is a no-op or an idempotent
  update, so that every descriptor is at most once in the watched set of either backend.
  The epoll backend is idempotent (\<open>epoll_want_read_twice\<close>). The select backend is not:
  \<^verbatim>\<open>want_read\<close> pushes the descriptor on \<^verbatim>\<open>_fds\<close> without looking for it, and after
  \<^verbatim>\<open>want_read(5)\<close> twice the watched list holds 5 twice.
\<close>

theorem posix_want_read_twice_duplicates:
  "posix_want_read posix_init 5 = Returned (watching [5]) \<and>
   posix_want_read (watching [5]) 5 = Returned (watching [5, 5]) \<and>
   p_fds (watching [5, 5]) = [5, 5]"
  by (auto simp add: kernel_defs posix_defs example_defs fun_eq_iff)

subsection \<open>C5: results of the readiness call that are not positive\<close>

text \<open>
  C5 says that both backends surface a result of zero as TimedOut and a negative result as
  Error. In the epoll backend a negative result with \<^verbatim>\<open>EINTR\<close> is not surfaced as Error:
  the call is repeated, and here the second call times out, so the caller sees TimedOut.
\<close>

theorem epoll_negative_result_retried_counterexample:
  "epoll_wait kernel345 (e_epollFd selector34) 64 (epoll_timeout (Some 10)) (failing_env EINTR) =
     Returned (kernel345\<lparr>k_errno := EINTR\<rparr>, -1, []) \<and>
   epoll_wait_one kernel345 selector34 (Some 10) [failing_env EINTR, ready_env []] =
     Returned (kernel345\<lparr>k_errno := EAGAIN\<rparr>, selector34, None)"
  by (simp add: kernel_defs epoll_defs example_defs Let_def)

text \<open>
  C5 as amended: with the pending queue empty, both backends map the results of the
  readiness call that are not positive in the same way. A result of zero makes \<^verbatim>\<open>wait_one\<close>
  return no descriptor with \<^verbatim>\<open>errno = EAGAIN\<close> (TimedOut); a negative result whose error
  is not \<^verbatim>\<open>EINTR\<close> makes it return no descriptor with \<^verbatim>\<open>errno\<close> as the readiness call
  left it (Error).
\<close>

theorem nonpositive_results_classified:
  assumes "p_fds ps \<noteq> []" and "p_pending ps = []" and "e_pending es = []"
    and "sys_select (set_errno k EAGAIN) (last (p_fds ps) + 1) (p_reader ps) (posix_timeval t0) e0 =
           Returned (k0, 0, rd0)"
    and "sys_select (set_errno k EAGAIN) (last (p_fds ps) + 1) (p_reader ps) (posix_timeval t1) e1 =
           Returned (k1, n1, rd1)"
    and "n1 < 0" and "k_errno k1 \<noteq> EINTR"
    and "epoll_wait k' (e_epollFd es) 64 (epoll_timeout t2) e2 = Returned (k2, 0, evs2)"
    and "epoll_wait k' (e_epollFd es) 64 (epoll_timeout t3) e3 = Returned (k3, n3, evs3)"
    and "n3 < 0" and "k_errno k3 \<noteq> EINTR"
  shows "posix_wait_one libc k ps t0 e0 = Returned (k0, ps\<lparr>p_reader := rd0\<rparr>, None) \<and> k_errno k0 = EAGAIN \<and>
         posix_wait_one libc k ps t1 e1 = Returned (k1, ps, None) \<and>
         epoll_wait_one k' es t2 (e2 # rest2) = Returned (set_errno k2 EAGAIN, es, None) \<and>
         k_errno (set_errno k2 EAGAIN) = EAGAIN \<and>
         epoll_wait_one k' es t3 (e3 # rest3) = Returned (k3, es, None)"
proof -
  have a: "posix_wait_one libc k ps t0 e0 = Returned (k0, ps\<lparr>p_reader := rd0\<rparr>, None)"
    using posix_wait_one_empty [OF assms(1) assms(2) assms(4)] by simp
  from sys_select_cases [OF assms(4)] have "k0 = set_errno k EAGAIN" by simp
  then have b: "k_errno k0 = EAGAIN" by (simp add: set_errno_def)
  from sys_select_cases [OF assms(5)] assms(6) have "rd1 = p_reader ps" by simp
  then have "ps\<lparr>p_reader := rd1\<rparr> = ps" by simp
  then have c: "posix_wait_one libc k ps t1 e1 = Returned (k1, ps, None)"
    using posix_wait_one_empty [OF assms(1) assms(2) assms(5)] assms(6) by simp
  have d: "epoll_wait_one k' es t2 (e2 # rest2) = Returned (set_errno k2 EAGAIN, es, None)"
    using assms(8) by (simp add: epoll_wait_one_empty [OF assms(3)])
  have e: "epoll_wait_one k' es t3 (e3 # rest3) = Returned (k3, es, None)"
    using assms(9,10,11) by (simp add: epoll_wait_one_empty [OF assms(3)])
  from a b c d e show ?thesis by (simp add: set_errno_def)
qed

theorem nonpositive_results_classified_witness:
  "posix_wait_one glibc_x86_64 kernel0 (watching [5]) (Some 10) (ready_env []) =
     Returned (kernel0\<lparr>k_errno := EAGAIN\<rparr>, (watching [5])\<lparr>p_reader := (\<lambda>fd. False)\<rparr>, None) \<and>
   posix_wait_one glibc_x86_64 kernel0 (watching [5]) (Some 10) (failing_env EBADF) =
     Returned (kernel0\<lparr>k_errno := EBADF\<rparr>, watching [5], None) \<and>
   epoll_wait_one kernel345 selector34 (Some 10) [ready_env []] =
     Returned (kernel345\<lparr>k_errno := EAGAIN\<rparr>, selector34, None) \<and>
   epoll_wait_one kernel345 selector34 (Some 10) [failing_env EBADF] =
     Returned (kernel345\<lparr>k_errno := EBADF\<rparr>, selector34, None)"
proof -
  let ?ps = "watching [5]"
  have fds: "p_fds ?ps = [5]" by (simp add: example_defs)
  have h1: "p_fds ?ps \<noteq> []" by (simp add: fds)
  have h2: "p_pending ?ps = []" by (simp add: example_defs)
  have h3: "e_pending selector34 = []" by (simp add: example_defs)
  have h4: "sys_select (set_errno kernel0 EAGAIN) (last (p_fds ?ps) + 1) (p_reader ?ps) (posix_timeval (Some 10))
              (ready_env []) = Returned (kernel0\<lparr>k_errno := EAGAIN\<rparr>, 0, (\<lambda>fd. False))"
    unfolding fds by (auto simp add: kernel_defs posix_defs example_defs Let_def upto.simps fun_eq_iff)
  have h5: "sys_select (set_errno kernel0 EAGAIN) (last (p_fds ?ps) + 1) (p_reader ?ps) (posix_timeval (Some 10))
              (failing_env EBADF) = Returned (kernel0\<lparr>k_errno := EBADF\<rparr>, -1, p_reader ?ps)"
    unfolding fds by (auto simp add: kernel_defs posix_defs example_defs upto.simps)
  have h6: "(-1::int) < 0" by simp
  have h7: "k_errno (kernel0\<lparr>k_errno := EBADF\<rparr>) \<noteq> EINTR" by simp
  have h8: "epoll_wait kernel345 (e_epollFd selector34) 64 (epoll_timeout (Some 10)) (ready_env []) =
              Returned (kernel345, 0, [])"
    by (simp add: kernel_defs epoll_defs example_defs Let_def)
  have h9: "epoll_wait kernel345 (e_epollFd selector34) 64 (epoll_timeout (Some 10)) (failing_env EBADF) =
              Returned (kernel345\<lparr>k_errno := EBADF\<rparr>, -1, [])"
    by (simp add: kernel_defs epoll_defs example_defs Let_def)
  have h11: "k_errno (kernel345\<lparr>k_errno := EBADF\<rparr>) \<noteq> EINTR" by simp
  from nonpositive_results_classified [OF h1 h2 h3 h4 h5 h6 h7 h8 h9 h6 h11, of glibc_x86_64 "[]" "[]"]
  show ?thesis by (simp add: set_errno_def)
qed

subsection \<open>C6: a readiness call interrupted by a signal\<close>

text \<open>
  C6: a readiness call interrupted by a signal (\<^verbatim>\<open>EINTR\<close>) is retried inside \<^verbatim>\<open>wait_one\<close>
  and never reaches the caller. The epoll backend retries (\<open>epoll_wait_one_retries\<close>). The
  select backend returns at once instead, with an empty result and \<^verbatim>\<open>errno = EINTR\<close>,
  whatever the C library is.
\<close>

theorem posix_wait_one_surfaces_EINTR:
  "posix_create [5] = Returned (watching [5]) \<and>
   posix_wait_one libc kernel0 (watching [5]) None (failing_env EINTR) =
     Returned (kernel0\<lparr>k_errno := EINTR\<rparr>, watching [5], None)"
  by (auto simp add: kernel_defs posix_defs example_defs Let_def upto.simps fun_eq_iff)


subsection \<open>C7: one batch of the epoll backend\<close>

text \<open>
  C7: in the epoll backend's \<^verbatim>\<open>wait_one\<close>, after the events of one \<^verbatim>\<open>epoll_wait\<close> have been
  triaged, the pending queue is consulted first. With the queue empty at entry and a
  positive result, the call returns the first reported descriptor that is not the eventfd,
  whether or not the eventfd was reported too, keeps the others queued and leaves \<^verbatim>\<open>errno\<close>
  as the triage left it; when no such descriptor was reported it returns nothing, with
  \<^verbatim>\<open>errno\<close> set to \<^verbatim>\<open>EINTR\<close> (Interrupted) if the flag \<^verbatim>\<open>piped\<close> is set after the triage and to
  \<^verbatim>\<open>EAGAIN\<close> (TimedOut) otherwise.
\<close>

theorem epoll_batch_priority:
  assumes "e_pending s = []"
      and "epoll_wait k (e_epollFd s) 64 (epoll_timeout t) e = Returned (k1, n, evs)"
      and "0 < n"
      and "epoll_triage k1 s False (take (nat n) evs) = (k2, s2, piped)"
  shows "epoll_wait_one k s t (e # es) =
           (case filter (\<lambda>fd. fd \<noteq> e_eventFd s) (take (nat n) evs) of
              [] \<Rightarrow> Returned (k2\<lparr>k_errno := (if piped then EINTR else EAGAIN)\<rparr>, s, None)
            | fd # rest \<Rightarrow> Returned (k2, s\<lparr>e_pending := rest\<rparr>, Some fd))"
  by (rule epoll_first_batch [OF assms, unfolded set_errno_def])

text \<open>
  Two runs after a \<^verbatim>\<open>wakeup\<close>, on the selector with descriptor 5 registered. With 5
  readable the batch is 5 and the eventfd: the eventfd is read (\<^verbatim>\<open>piped\<close> is set), 5 is
  returned and \<^verbatim>\<open>errno\<close> stays as it was. With nothing else readable the batch is the
  eventfd alone: nothing is returned and \<^verbatim>\<open>errno\<close> is \<^verbatim>\<open>EINTR\<close>. The kernel reports an
  eventfd only while its counter is not zero, and reading it then returns data, so a batch
  without a real descriptor always sets \<^verbatim>\<open>piped\<close> (\<open>epoll_wake_drained\<close>).
\<close>

theorem epoll_batch_priority_witness:
  "e_pending selector34 = [] \<and>
   epoll_wait (epoll_wakeup kernel345 selector34) (e_epollFd selector34) 64 (epoll_timeout None) (ready_env [5]) =
     Returned (epoll_wakeup kernel345 selector34, 2, [5, 4]) \<and>
   epoll_triage (epoll_wakeup kernel345 selector34) selector34 False (take (nat 2) [5, 4]) =
     (kernel345, selector34\<lparr>e_pending := [5]\<rparr>, True) \<and>
   epoll_wait_one (epoll_wakeup kernel345 selector34) selector34 None [ready_env [5]] =
     Returned (kernel345, selector34, Some 5) \<and>
   epoll_wait (epoll_wakeup kernel345 selector34) (e_epollFd selector34) 64 (epoll_timeout None) (ready_env []) =
     Returned (epoll_wakeup kernel345 selector34, 1, [4]) \<and>
   epoll_triage (epoll_wakeup kernel345 selector34) selector34 False (take (nat 1) [4]) =
     (kernel345, selector34, True) \<and>
   k_errno kernel345 = ENONE \<and>
   epoll_wait_one (epoll_wakeup kernel345 selector34) selector34 None [ready_env []] =
     Returned (kernel345\<lparr>k_errno := EINTR\<rparr>, selector34, None)"
proof -
  let ?k = "epoll_wakeup kernel345 selector34"
  have h1: "e_pending selector34 = []"
    by (simp add: selector34_def)
  have h2: "epoll_wait ?k (e_epollFd selector34) 64 (epoll_timeout None) (ready_env [5]) =
     Returned (?k, 2, [5, 4])"
    by (simp add: kernel_defs epoll_defs example_defs)
  have h3: "(0::int) < 2" by simp
  have h4: "epoll_triage ?k selector34 False (take (nat 2) [5, 4]) =
     (kernel345, selector34\<lparr>e_pending := [5]\<rparr>, True)"
    by (auto simp add: kernel_defs epoll_defs example_defs numeral_2_eq_2 fun_eq_iff)
  have g2: "epoll_wait ?k (e_epollFd selector34) 64 (epoll_timeout None) (ready_env []) =
     Returned (?k, 1, [4])"
    by (simp add: kernel_defs epoll_defs example_defs)
  have g3: "(0::int) < 1" by simp
  have g4: "epoll_triage ?k selector34 False (take (nat 1) [4]) = (kernel345, selector34, True)"
    by (auto simp add: kernel_defs epoll_defs example_defs fun_eq_iff)
  have e0: "k_errno kernel345 = ENONE"
    by (simp add: example_defs)
  from epoll_batch_priority [OF h1 h2 h3 h4, of "[]"]
  have a: "epoll_wait_one ?k selector34 None [ready_env [5]] = Returned (kernel345, selector34, Some 5)"
    by (simp add: selector34_def)
  from epoll_batch_priority [OF h1 g2 g3 g4, of "[]"]
  have b: "epoll_wait_one ?k selector34 None [ready_env []] =
     Returned (kernel345\<lparr>k_errno := EINTR\<rparr>, selector34, None)"
    by (simp add: selector34_def)
  show ?thesis
    by (intro conjI) (rule h1 h2 h4 a g2 g4 e0 b)+
qed

subsection \<open>C8: delivery order of one batch\<close>

text \<open>
  C8: the descriptors found ready by one readiness call are delivered by successive
  \<^verbatim>\<open>wait_one\<close> calls in the backend's enumeration order, and no further readiness call is
  issued until the batch is exhausted. The epoll backend does so (\<open>epoll_batch\<close>). The
  select backend does so as long as the test \<^verbatim>\<open>FD_ISSET(_breakPipe[0], &_reader)\<close> reads a
  clear bit (\<open>posix_batch\<close>), but \<^verbatim>\<open>_breakPipe[0]\<close> is \<open>-1\<close> in every selector (C3), and the
  bit that the test reads is not one of the bitmap's own. With glibc on x86-64 it is the
  bit of descriptor 63: a selector watching 63 takes the readiness of 63 for a wakeup,
  tries to drain descriptor \<open>-1\<close> and returns nothing, with \<^verbatim>\<open>errno = EBADF\<close>, on every call;
  descriptor 63 is never delivered. With a glibc that checks the descriptor
  (\<^verbatim>\<open>_FORTIFY_SOURCE\<close>), the first \<^verbatim>\<open>wait_one\<close> that finds descriptors 5 and 9 ready aborts
  the process.
\<close>

theorem posix_ready_descriptor_not_delivered:
  "posix_create [63] = Returned (watching [63]) \<and>
   posix_wait_many glibc_x86_64 kernel0 (watching [63]) [(None, ready_env [63]), (None, ready_env [63])] =
     Returned (kernel0\<lparr>k_errno := EBADF\<rparr>, watching [63], [None, None]) \<and>
   posix_create [5, 9] = Returned (watching [5, 9]) \<and>
   posix_wait_one glibc_fortified kernel0 (watching [5, 9]) None (ready_env [5, 9]) = Aborted"
proof -
  have a: "posix_create [63] = Returned (watching [63])"
    by (simp add: posix_create_watching fd_in_range_def FD_SETSIZE_def)
  have first: "posix_wait_one glibc_x86_64 kernel0 (watching [63]) None (ready_env [63]) =
               Returned (kernel0\<lparr>k_errno := EBADF\<rparr>, watching [63], None)"
    by (auto simp add: kernel_defs posix_defs example_defs Let_def upto.simps fun_eq_iff posix_drain.simps)
  have second: "posix_wait_one glibc_x86_64 (kernel0\<lparr>k_errno := EBADF\<rparr>) (watching [63]) None (ready_env [63]) =
               Returned (kernel0\<lparr>k_errno := EBADF\<rparr>, watching [63], None)"
    by (auto simp add: kernel_defs posix_defs example_defs Let_def upto.simps fun_eq_iff posix_drain.simps)
  have b: "posix_wait_many glibc_x86_64 kernel0 (watching [63]) [(None, ready_env [63]), (None, ready_env [63])] =
     Returned (kernel0\<lparr>k_errno := EBADF\<rparr>, watching [63], [None, None])"
    by (simp add: first second)
  have c: "posix_create [5, 9] = Returned (watching [5, 9])"
    by (simp add: posix_create_watching fd_in_range_def FD_SETSIZE_def)
  have d: "posix_wait_one glibc_fortified kernel0 (watching [5, 9]) None (ready_env [5, 9]) = Aborted"
    by (auto simp add: kernel_defs posix_defs example_defs Let_def upto.simps fun_eq_iff)
  from a b c d show ?thesis by simp
qed

text \<open>
  The example of C8 on glibc for x86-64 without that check: with 5 and 9 watched and both
  readable, two calls return 5 and then 9, the second without asking the kernel (its
  environment would block), and a third call with a timeout returns nothing with
  \<^verbatim>\<open>errno = EAGAIN\<close>.
\<close>

lemma posix_five_then_nine:
  "posix_wait_many glibc_x86_64 kernel0 (watching [5, 9])
       [(None, ready_env [5, 9]), (None, ready_env []), (Some 10, ready_env [])] =
     Returned (kernel0\<lparr>k_errno := EAGAIN\<rparr>, (watching [5, 9])\<lparr>p_reader := (\<lambda>fd. False)\<rparr>,
               [Some 5, Some 9, None])"
  by (auto simp add: kernel_defs posix_defs example_defs Let_def upto.simps fun_eq_iff)

subsection \<open>C9: the wake descriptor is never delivered\<close>




subsection \<open>C10: a call that times out or fails changes nothing\<close>

text \<open>
  C10: a \<^verbatim>\<open>wait_one\<close> that times out or fails leaves the watched set and the pending queue
  as they were. The epoll backend does (\<open>epoll_wait_one_None_keeps\<close>). On the select
  backend a timeout does not: \<^verbatim>\<open>select\<close> writes its answer into \<^verbatim>\<open>_reader\<close>, the selector's
  own bitmap, so the bit of descriptor 5 is gone after the first call, and the retry does
  not see that 5 has become readable, whatever the C library is.
\<close>

theorem posix_timeout_clears_reader:
  "posix_create [5] = Returned (watching [5]) \<and> p_reader (watching [5]) 5 \<and>
   posix_wait_many libc kernel0 (watching [5]) [(Some 10, ready_env []), (Some 10, ready_env [5])] =
     Returned (kernel0\<lparr>k_errno := EAGAIN\<rparr>, (watching [5])\<lparr>p_reader := (\<lambda>fd. False)\<rparr>,
               [None, None])"
  by (auto simp add: kernel_defs posix_defs example_defs Let_def upto.simps fun_eq_iff)

end
